theory Spec2Isabelle
  imports Main
begin

section \<open>Data model\<close>

text \<open>
  The \<^verbatim>\<open>Property\<close> interface of \<^verbatim>\<open>index.ts\<close>. The field \<^verbatim>\<open>options\<close> is optional
  in the source (\<^verbatim>\<open>options?: string\<close>), hence an option here.
\<close>

record Property =
  name :: string
  label :: string
  type :: string
  description :: string
  groupName :: string
  fieldType :: string
  options :: "string option"
  readOnly :: bool
  calculated :: bool
  externalOptions :: bool
  deleted :: bool
  hubspotDefined :: bool

text \<open>
  A row produced by the CSV parser: one string per column the program reads. The field
  names are the column headers with \<open>_\<close> for the blank.
\<close>

record row =
  Internal_name :: string
  Name :: string
  Type :: string
  Description :: string
  Group_name :: string
  Form_field :: string
  Options :: string
  Read_only_value :: string
  Calculated :: string
  External_options :: string
  Deleted :: string
  Hubspot_defined :: string

text \<open>An element of the array that the groups endpoint answers with; only its name is read.\<close>

record group =
  group_name :: string
  group_displayName :: string

subsection \<open>Requests, errors, console output\<close>

datatype http_method = GET | POST | PUT | DELETE

text \<open>
  The \<^verbatim>\<open>data\<close> object of the create-or-update request. \<open>'j\<close> is the type of the values
  that \<^verbatim>\<open>JSON.parse\<close> returns; \<open>None\<close> stands for \<^verbatim>\<open>undefined\<close>.
\<close>

record 'j payload =
  data_name :: string
  data_label :: string
  data_description :: string
  data_groupName :: string
  data_type :: string
  data_fieldType :: string
  data_formField :: bool
  data_options :: "'j option"

datatype 'j body =
    GroupBody string string      \<comment> \<open>\<^verbatim>\<open>{ name, displayName }\<close>\<close>
  | PropertyBody "'j payload"

record 'j request =
  "method" :: http_method
  url :: string
  data :: "'j body option"

text \<open>
  What a rejected promise or a \<^verbatim>\<open>throw\<close> carries: an axios error with a response (status,
  serialized response data, message), an axios error without a response, the
  \<^verbatim>\<open>SyntaxError\<close> of \<^verbatim>\<open>JSON.parse\<close>, or the \<^verbatim>\<open>TypeError\<close> of calling \<^verbatim>\<open>some\<close> or
  \<^verbatim>\<open>filter\<close> on response data that are not an array of objects. All four are instances
  of \<^verbatim>\<open>Error\<close>.
\<close>

datatype error =
    AxiosResponseError nat string string
  | AxiosNetworkError string
  | SyntaxError string
  | TypeError string

fun message :: "error \<Rightarrow> string" where
  "message (AxiosResponseError status body m) = m"
| "message (AxiosNetworkError m) = m"
| "message (SyntaxError m) = m"
| "message (TypeError m) = m"

text \<open>One constructor per message the program prints, with the values it interpolates.\<close>

datatype log_msg =
    CreatedGroup string                     \<comment> \<open>Created property group: g\<close>
  | GroupError string string                \<comment> \<open>Error with property group g: message\<close>
  | FetchingCustom                          \<comment> \<open>Fetching all custom properties...\<close>
  | FoundCustom nat                         \<comment> \<open>Found n custom properties.\<close>
  | FetchCustomError error                  \<comment> \<open>Error fetching custom properties: error\<close>
  | CreatedProperty string                  \<comment> \<open>Created property: n\<close>
  | UpdatedProperty string                  \<comment> \<open>Updated property: n\<close>
  | PropertyResponseError string nat string \<comment> \<open>Error processing property n: status - data\<close>
  | PropertyError string string             \<comment> \<open>Error processing property n: message\<close>
  | DeletedProperty string                  \<comment> \<open>Deleted property: n\<close>
  | DeletePropertyError string string       \<comment> \<open>Error deleting property n: message\<close>
  | StartingImport string
  | FoundToImport nat
  | ProcessingProperty nat nat string       \<comment> \<open>Processing property i of n: name\<close>
  | ImportCompleted
  | StartingPropertyDeletion string
  | FoundToDelete nat
  | ProcessingDeletion nat nat string       \<comment> \<open>Processing deletion i of n: name\<close>
  | SkippingProperty string                 \<comment> \<open>Skipping read-only or non-existent property: n\<close>
  | NotFoundInCustom string                 \<comment> \<open>Property not found in custom properties: n\<close>
  | FailedDeletions "string list"           \<comment> \<open>Failed to delete the following properties: list\<close>
  | PropertyDeletionCompleted
  | DeletedGroup string                     \<comment> \<open>Deleted group: g\<close>
  | DeleteGroupError string string          \<comment> \<open>Error deleting group g: message\<close>
  | StartingGroupDeletion string
  | FoundGroups nat
  | ProcessingGroupDeletion nat nat string  \<comment> \<open>Processing group deletion i of n: g\<close>
  | GroupDeletionCompleted
  | ApiKeyNotSet                            \<comment> \<open>HUBSPOT\_API\_KEY environment variable is not set\<close>
  | NoFilePath                              \<comment> \<open>Please provide a CSV file path\<close>
  | InvalidCommand                          \<comment> \<open>Invalid command. Use ...\<close>

text \<open>
  The \<^verbatim>\<open>response.data\<close> of a fulfilled request, by the shape the call site reads. The data
  of a lookup by name are returned as they are and only tested for truthiness by the
  callers: \<open>None\<close> stands for data that are falsy (\<^verbatim>\<open>null\<close>, an empty body), \<open>Some\<close> for an
  object, of which \<^verbatim>\<open>readOnly\<close> is read.
\<close>

datatype response =
    GroupsData "group list"
  | PropertiesData "Property list"
  | PropertyData "Property option"
  | NoData

text \<open>
  Everything the program does to the outside, in the order it does it: a request handed to
  axios together with its outcome (the error that rejects the promise, or the response
  data), a line on standard output or standard error, a pause of so many milliseconds.
\<close>

datatype 'j event =
    Call "'j request" "error + response"
  | Out log_msg
  | Err log_msg
  | Sleep nat

text \<open>
  The remote API is not part of the program. It is a parameter: a state of any type \<open>'s\<close>
  and one handler per kind of answer the program reads (an array of groups, an array of
  properties, one property, or nothing). A handler answers a request in a state with the
  response data or the error that rejects the promise, and the next state. The two list
  requests use their data inside a \<^verbatim>\<open>try\<close> block: data that are not an array of objects
  make \<^verbatim>\<open>some\<close> or \<^verbatim>\<open>filter\<close> throw there, and the handler answers such a response with
  that \<open>TypeError\<close>. The lookup by name returns its data unread, so its handler answers
  with an object or with nothing (falsy data).
\<close>

record ('s, 'j) remote =
  list_groups :: "'j request \<Rightarrow> 's \<Rightarrow> (error + group list) \<times> 's"
  list_properties :: "'j request \<Rightarrow> 's \<Rightarrow> (error + Property list) \<times> 's"
  fetch_property :: "'j request \<Rightarrow> 's \<Rightarrow> (error + Property option) \<times> 's"
  mutate :: "'j request \<Rightarrow> 's \<Rightarrow> (error + unit) \<times> 's"

record ('s, 'j) world =
  store :: 's
  events :: "'j event list"

definition console_log :: "log_msg \<Rightarrow> ('s, 'j) world \<Rightarrow> ('s, 'j) world" where
  "console_log m w = w\<lparr>events := events w @ [Out m]\<rparr>"

definition console_error :: "log_msg \<Rightarrow> ('s, 'j) world \<Rightarrow> ('s, 'j) world" where
  "console_error m w = w\<lparr>events := events w @ [Err m]\<rparr>"

definition setTimeout :: "nat \<Rightarrow> ('s, 'j) world \<Rightarrow> ('s, 'j) world" where
  "setTimeout ms w = w\<lparr>events := events w @ [Sleep ms]\<rparr>"

definition init :: "'s \<Rightarrow> ('s, 'j) world" where
  "init s = \<lparr>store = s, events = []\<rparr>"

text \<open>
  One awaited axios call: the handler answers in the current state of the remote, and the
  exchange is appended to the events. \<open>shape\<close> only tags the response data for the record
  of events.
\<close>

definition axios ::
  "('j request \<Rightarrow> 's \<Rightarrow> (error + 'a) \<times> 's) \<Rightarrow> ('a \<Rightarrow> response) \<Rightarrow> 'j request
    \<Rightarrow> ('s, 'j) world \<Rightarrow> (error + 'a) \<times> ('s, 'j) world" where
  "axios handler shape req w =
     (case handler req (store w) of
        (r, s') \<Rightarrow>
          (r, \<lparr>store = s',
               events = events w @ [Call req (case r of Inl e \<Rightarrow> Inl e | Inr a \<Rightarrow> Inr (shape a))]\<rparr>))"

definition BASE_URL :: string where
  "BASE_URL = ''https://api.hubapi.com/properties/v1/contacts/properties''"

definition GROUPS_URL :: string where
  "GROUPS_URL = ''https://api.hubapi.com/properties/v1/contacts/groups''"

definition named_url :: "string \<Rightarrow> string" where
  "named_url propertyName = BASE_URL @ ''/named/'' @ propertyName"

definition group_url :: "string \<Rightarrow> string" where
  "group_url g = GROUPS_URL @ ''/'' @ g"

section \<open>The operations of index.ts\<close>

text \<open>
  The functions keep their names and the order of their statements. The parameter
  \<^verbatim>\<open>groupName\<close> of the two group functions is written \<open>g\<close>, the name \<open>groupName\<close> being
  the field of \<open>Property\<close>.
\<close>

definition createGroupIfNotExists ::
  "('s, 'j) remote \<Rightarrow> string \<Rightarrow> ('s, 'j) world \<Rightarrow> ('s, 'j) world" where
  "createGroupIfNotExists R g w =
     (case axios (list_groups R) GroupsData \<lparr>method = GET, url = GROUPS_URL, data = None\<rparr> w of
        (Inl e, w1) \<Rightarrow> console_error (GroupError g (message e)) w1
      | (Inr groups, w1) \<Rightarrow>
          if list_ex (\<lambda>group. group_name group = g) groups then w1
          else
            (case axios (mutate R) (\<lambda>u. NoData)
                    \<lparr>method = POST, url = GROUPS_URL,
                     data = Some (GroupBody g g)\<rparr> w1 of
               (Inl e, w2) \<Rightarrow> console_error (GroupError g (message e)) w2
             | (Inr u, w2) \<Rightarrow> console_log (CreatedGroup g) w2))"

definition getAllCustomProperties ::
  "('s, 'j) remote \<Rightarrow> ('s, 'j) world \<Rightarrow> Property list \<times> ('s, 'j) world" where
  "getAllCustomProperties R w =
     (case axios (list_properties R) PropertiesData \<lparr>method = GET, url = BASE_URL, data = None\<rparr>
             (console_log FetchingCustom w) of
        (Inr response_data, w1) \<Rightarrow>
          (let customProperties = filter (\<lambda>prop. \<not> hubspotDefined prop) response_data
           in (customProperties, console_log (FoundCustom (length customProperties)) w1))
      | (Inl e, w1) \<Rightarrow> ([], console_error (FetchCustomError e) w1))"

definition getPropertyDetails ::
  "('s, 'j) remote \<Rightarrow> string \<Rightarrow> ('s, 'j) world \<Rightarrow> Property option \<times> ('s, 'j) world" where
  "getPropertyDetails R propertyName w =
     (case axios (fetch_property R) PropertyData
             \<lparr>method = GET, url = named_url propertyName, data = None\<rparr> w of
        (Inr response_data, w1) \<Rightarrow> (response_data, w1)
      | (Inl e, w1) \<Rightarrow> (None, w1))"

text \<open>
  The object literal passed as \<^verbatim>\<open>data\<close>. Evaluating it can throw: \<^verbatim>\<open>JSON.parse\<close> is called
  when \<^verbatim>\<open>prop.options\<close> is truthy (present and not the empty string). \<^verbatim>\<open>JSON.parse\<close> is
  the parameter \<open>parse\<close>, which answers with the message of its \<^verbatim>\<open>SyntaxError\<close> or with
  the value.
\<close>

definition property_data ::
  "(string \<Rightarrow> string + 'j) \<Rightarrow> Property \<Rightarrow> error + 'j payload" where
  "property_data parse prop =
     (case (case options prop of
              None \<Rightarrow> Inr None
            | Some s \<Rightarrow>
                if s = [] then Inr None
                else (case parse s of Inl m \<Rightarrow> Inl (SyntaxError m) | Inr v \<Rightarrow> Inr (Some v))) of
        Inl e \<Rightarrow> Inl e
      | Inr opts \<Rightarrow>
          Inr \<lparr>data_name = name prop,
               data_label = label prop,
               data_description = description prop,
               data_groupName = groupName prop,
               data_type = type prop,
               data_fieldType = fieldType prop,
               data_formField = (fieldType prop = ''text''),
               data_options = opts\<rparr>)"

text \<open>
  The \<^verbatim>\<open>catch\<close> block of \<^verbatim>\<open>createOrUpdateProperty\<close>: the message depends on whether the
  error is an axios error that carries a response.
\<close>

fun property_error_msg :: "string \<Rightarrow> error \<Rightarrow> log_msg" where
  "property_error_msg n (AxiosResponseError status body m) = PropertyResponseError n status body"
| "property_error_msg n e = PropertyError n (message e)"

definition createOrUpdateProperty ::
  "('s, 'j) remote \<Rightarrow> (string \<Rightarrow> string + 'j) \<Rightarrow> Property \<Rightarrow> ('s, 'j) world
    \<Rightarrow> bool \<times> ('s, 'j) world" where
  "createOrUpdateProperty R parse prop w =
     (case getPropertyDetails R (name prop) w of
        (existingProperty, w1) \<Rightarrow>
          (let method' = (if existingProperty \<noteq> None then PUT else POST);
               url' = (if existingProperty \<noteq> None then named_url (name prop) else BASE_URL)
           in case property_data parse prop of
                Inl e \<Rightarrow> (False, console_error (property_error_msg (name prop) e) w1)
              | Inr d \<Rightarrow>
                  (case axios (mutate R) (\<lambda>u. NoData)
                          \<lparr>method = method', url = url', data = Some (PropertyBody d)\<rparr> w1 of
                     (Inr u, w2) \<Rightarrow>
                       (True,
                        console_log
                          (if existingProperty \<noteq> None then UpdatedProperty (name prop)
                           else CreatedProperty (name prop)) w2)
                   | (Inl e, w2) \<Rightarrow>
                       (False, console_error (property_error_msg (name prop) e) w2))))"

definition deleteProperty ::
  "('s, 'j) remote \<Rightarrow> string \<Rightarrow> ('s, 'j) world \<Rightarrow> bool \<times> ('s, 'j) world" where
  "deleteProperty R propertyName w =
     (case axios (mutate R) (\<lambda>u. NoData) \<lparr>method = DELETE, url = named_url propertyName, data = None\<rparr> w of
        (Inr u, w1) \<Rightarrow> (True, console_log (DeletedProperty propertyName) w1)
      | (Inl e, w1) \<Rightarrow>
          (False, console_error (DeletePropertyError propertyName (message e)) w1))"

text \<open>
  The file reader and CSV parser, for a file that is read to its end, are a parameter
  \<open>csv\<close>: the rows of the file at a path, in file order (a file that cannot be read is
  the matter of the driver, below). The \<^verbatim>\<open>data\<close> handler of \<^verbatim>\<open>importProperties\<close> keeps the rows whose
  \<^verbatim>\<open>Hubspot defined\<close> column is not \<^verbatim>\<open>'true'\<close> and builds one \<^verbatim>\<open>Property\<close> from each.
\<close>

definition row_property :: "row \<Rightarrow> Property" where
  "row_property r =
     \<lparr>name = Internal_name r,
      label = Name r,
      type = Type r,
      description = Description r,
      groupName = Group_name r,
      fieldType = (if Form_field r = ''true'' then ''text'' else ''textarea''),
      options = Some (Options r),
      readOnly = (Read_only_value r = ''true''),
      calculated = (Calculated r = ''true''),
      externalOptions = (External_options r = ''true''),
      deleted = (Deleted r = ''true''),
      hubspotDefined = False\<rparr>"

definition read_properties :: "row list \<Rightarrow> Property list" where
  "read_properties rows = map row_property (filter (\<lambda>r. Hubspot_defined r \<noteq> ''true'') rows)"

text \<open>The \<^verbatim>\<open>for\<close> loop of \<^verbatim>\<open>importProperties\<close>; \<open>n\<close> is \<^verbatim>\<open>properties.length\<close>.\<close>

fun import_loop ::
  "('s, 'j) remote \<Rightarrow> (string \<Rightarrow> string + 'j) \<Rightarrow> nat \<Rightarrow> nat \<Rightarrow> Property list
    \<Rightarrow> ('s, 'j) world \<Rightarrow> ('s, 'j) world" where
  "import_loop R parse n index [] w = w"
| "import_loop R parse n index (prop # rest) w =
     import_loop R parse n (index + 1) rest
       (snd (createOrUpdateProperty R parse prop
          (createGroupIfNotExists R (groupName prop)
             (console_log (ProcessingProperty (index + 1) n (name prop)) w))))"

definition importProperties ::
  "('s, 'j) remote \<Rightarrow> (string \<Rightarrow> string + 'j) \<Rightarrow> (string \<Rightarrow> row list) \<Rightarrow> string
    \<Rightarrow> ('s, 'j) world \<Rightarrow> ('s, 'j) world" where
  "importProperties R parse csv filePath w =
     (let properties = read_properties (csv filePath)
      in console_log ImportCompleted
           (import_loop R parse (length properties) 0 properties
              (console_log (FoundToImport (length properties))
                 (console_log (StartingImport filePath) w))))"

text \<open>
  A JavaScript \<^verbatim>\<open>Set\<close> of strings iterates in insertion order; \<^verbatim>\<open>add\<close> of a member
  changes nothing. It is the list of its members in that order.
\<close>

definition set_add :: "string \<Rightarrow> string list \<Rightarrow> string list" where
  "set_add x xs = (if x \<in> set xs then xs else xs @ [x])"

definition read_propertiesToDelete :: "row list \<Rightarrow> string list" where
  "read_propertiesToDelete rows =
     fold (\<lambda>r acc. if Hubspot_defined r \<noteq> ''true'' then set_add (Internal_name r) acc else acc)
       rows []"

text \<open>
  The body of the \<^verbatim>\<open>for\<close> loop of \<^verbatim>\<open>deletePropertiesFromCSV\<close>, for one \<^verbatim>\<open>propName\<close>;
  \<open>n\<close> is \<^verbatim>\<open>propertiesToDelete.size\<close>. It takes \<^verbatim>\<open>failedDeletions\<close> and returns it
  updated.
\<close>

definition delete_body ::
  "('s, 'j) remote \<Rightarrow> Property list \<Rightarrow> nat \<Rightarrow> nat \<Rightarrow> string \<Rightarrow> string list
    \<Rightarrow> ('s, 'j) world \<Rightarrow> string list \<times> ('s, 'j) world" where
  "delete_body R customProperties n index propName failedDeletions w =
     (let w0 = console_log (ProcessingDeletion index n propName) w
      in if list_ex (\<lambda>prop. name prop = propName) customProperties then
           (case getPropertyDetails R propName w0 of
              (details, w1) \<Rightarrow>
                if details \<noteq> None \<and> \<not> readOnly (the details) then
                  (case deleteProperty R propName w1 of
                     (success, w2) \<Rightarrow>
                       (if \<not> success then failedDeletions @ [propName] else failedDeletions,
                        setTimeout 1000 w2))
                else
                  (failedDeletions @ [propName],
                   setTimeout 1000 (console_log (SkippingProperty propName) w1)))
         else (failedDeletions, console_log (NotFoundInCustom propName) w0))"

text \<open>The loop itself: the names in the iteration order of the set, \<^verbatim>\<open>index\<close> counted up.\<close>

fun delete_loop ::
  "('s, 'j) remote \<Rightarrow> Property list \<Rightarrow> nat \<Rightarrow> nat \<Rightarrow> string list \<Rightarrow> string list
    \<Rightarrow> ('s, 'j) world \<Rightarrow> string list \<times> ('s, 'j) world" where
  "delete_loop R customProperties n index [] failedDeletions w = (failedDeletions, w)"
| "delete_loop R customProperties n index (propName # rest) failedDeletions w =
     (case delete_body R customProperties n index propName failedDeletions w of
        (failedDeletions', w') \<Rightarrow>
          delete_loop R customProperties n (index + 1) rest failedDeletions' w')"

definition deletePropertiesFromCSV ::
  "('s, 'j) remote \<Rightarrow> (string \<Rightarrow> row list) \<Rightarrow> string \<Rightarrow> ('s, 'j) world \<Rightarrow> ('s, 'j) world" where
  "deletePropertiesFromCSV R csv filePath w =
     (case getAllCustomProperties R (console_log (StartingPropertyDeletion filePath) w) of
        (customProperties, w1) \<Rightarrow>
          (let propertiesToDelete = read_propertiesToDelete (csv filePath)
           in case delete_loop R customProperties (length propertiesToDelete) 1
                     propertiesToDelete []
                     (console_log (FoundToDelete (length propertiesToDelete)) w1) of
                (failedDeletions, w2) \<Rightarrow>
                  console_log PropertyDeletionCompleted
                    (if length failedDeletions > 0
                     then console_error (FailedDeletions failedDeletions) w2 else w2)))"

definition deleteGroup :: "('s, 'j) remote \<Rightarrow> string \<Rightarrow> ('s, 'j) world \<Rightarrow> ('s, 'j) world" where
  "deleteGroup R g w =
     (case axios (mutate R) (\<lambda>u. NoData) \<lparr>method = DELETE, url = group_url g, data = None\<rparr> w of
        (Inr u, w1) \<Rightarrow> console_log (DeletedGroup g) w1
      | (Inl e, w1) \<Rightarrow> console_error (DeleteGroupError g (message e)) w1)"

definition read_groups :: "row list \<Rightarrow> string list" where
  "read_groups rows = fold (\<lambda>r acc. set_add (Group_name r) acc) rows []"

fun group_loop ::
  "('s, 'j) remote \<Rightarrow> nat \<Rightarrow> nat \<Rightarrow> string list \<Rightarrow> ('s, 'j) world \<Rightarrow> ('s, 'j) world" where
  "group_loop R n index [] w = w"
| "group_loop R n index (g # rest) w =
     group_loop R n (index + 1) rest
       (deleteGroup R g (console_log (ProcessingGroupDeletion index n g) w))"

definition deleteGroupsFromCSV ::
  "('s, 'j) remote \<Rightarrow> (string \<Rightarrow> row list) \<Rightarrow> string \<Rightarrow> ('s, 'j) world \<Rightarrow> ('s, 'j) world" where
  "deleteGroupsFromCSV R csv filePath w =
     (let groups = read_groups (csv filePath)
      in console_log GroupDeletionCompleted
           (group_loop R (length groups) 1 groups
              (console_log (FoundGroups (length groups))
                 (console_log (StartingGroupDeletion filePath) w))))"

text \<open>
  The three workflows above are the functions on a file that is read to its end, \<open>csv\<close>
  giving its rows. Whether a file can be read is the parameter \<open>fs\<close> of a whole process:
  the rows of the file at a path, or \<open>None\<close> when \<^verbatim>\<open>createReadStream\<close> fails on it. The
  streams have no \<^verbatim>\<open>error\<close> listener, so on such a file the stream's \<^verbatim>\<open>error\<close> event is an
  uncaught exception: the process ends there, after the statements that precede the read
  (the first line, and in \<^verbatim>\<open>deletePropertiesFromCSV\<close> the snapshot as well), and the
  promise of the workflow never settles.
\<close>

datatype ('s, 'j) process =
    Exited nat "('s, 'j) world"   \<comment> \<open>\<^verbatim>\<open>process.exit(n)\<close>\<close>
  | Uncaught "('s, 'j) world"     \<comment> \<open>ended by an uncaught exception\<close>
  | Finished "('s, 'j) world"     \<comment> \<open>the module and its workflow ran to their end\<close>

text \<open>
  The exit status that Node gives the process: the argument of \<^verbatim>\<open>process.exit\<close>, 1 after
  an uncaught exception, 0 when the program has run to its end.
\<close>

fun exit_code :: "('s, 'j) process \<Rightarrow> nat" where
  "exit_code (Exited n w) = n"
| "exit_code (Uncaught w) = 1"
| "exit_code (Finished w) = 0"

fun final_world :: "('s, 'j) process \<Rightarrow> ('s, 'j) world" where
  "final_world (Exited n w) = w"
| "final_world (Uncaught w) = w"
| "final_world (Finished w) = w"

definition importProperties_of_file ::
  "('s, 'j) remote \<Rightarrow> (string \<Rightarrow> string + 'j) \<Rightarrow> (string \<Rightarrow> row list option) \<Rightarrow> string
    \<Rightarrow> ('s, 'j) world \<Rightarrow> ('s, 'j) process" where
  "importProperties_of_file R parse fs filePath w =
     (case fs filePath of
        None \<Rightarrow> Uncaught (console_log (StartingImport filePath) w)
      | Some rows \<Rightarrow> Finished (importProperties R parse (\<lambda>path. rows) filePath w))"

definition deletePropertiesFromCSV_of_file ::
  "('s, 'j) remote \<Rightarrow> (string \<Rightarrow> row list option) \<Rightarrow> string \<Rightarrow> ('s, 'j) world
    \<Rightarrow> ('s, 'j) process" where
  "deletePropertiesFromCSV_of_file R fs filePath w =
     (case fs filePath of
        None \<Rightarrow>
          Uncaught (snd (getAllCustomProperties R
                           (console_log (StartingPropertyDeletion filePath) w)))
      | Some rows \<Rightarrow> Finished (deletePropertiesFromCSV R (\<lambda>path. rows) filePath w))"

definition deleteGroupsFromCSV_of_file ::
  "('s, 'j) remote \<Rightarrow> (string \<Rightarrow> row list option) \<Rightarrow> string \<Rightarrow> ('s, 'j) world
    \<Rightarrow> ('s, 'j) process" where
  "deleteGroupsFromCSV_of_file R fs filePath w =
     (case fs filePath of
        None \<Rightarrow> Uncaught (console_log (StartingGroupDeletion filePath) w)
      | Some rows \<Rightarrow> Finished (deleteGroupsFromCSV R (\<lambda>path. rows) filePath w))"

text \<open>
  The top level of the module, run from a remote in state \<open>s\<close>: the check of the environment
  variable, the two positional arguments, the dispatch. \<open>argv\<close> is \<^verbatim>\<open>process.argv\<close>; a
  missing element and an unset variable are \<open>None\<close>.
\<close>

definition arg :: "string list \<Rightarrow> nat \<Rightarrow> string option" where
  "arg args i = (if i < length args then Some (args ! i) else None)"

definition falsy :: "string option \<Rightarrow> bool" where
  "falsy v = (v = None \<or> v = Some [])"

definition main ::
  "('s, 'j) remote \<Rightarrow> (string \<Rightarrow> string + 'j) \<Rightarrow> (string \<Rightarrow> row list option) \<Rightarrow> string option
    \<Rightarrow> string list \<Rightarrow> 's \<Rightarrow> ('s, 'j) process" where
  "main R parse fs API_KEY argv s =
     (if falsy API_KEY then Exited 1 (console_error ApiKeyNotSet (init s))
      else
        (let args = drop 2 argv;
             command = arg args 0;
             filePath = arg args 1
         in if falsy filePath then Exited 1 (console_error NoFilePath (init s))
            else if command = Some ''import'' then
              importProperties_of_file R parse fs (the filePath) (init s)
            else if command = Some ''delete-properties'' then
              deletePropertiesFromCSV_of_file R fs (the filePath) (init s)
            else if command = Some ''delete-groups'' then
              deleteGroupsFromCSV_of_file R fs (the filePath) (init s)
            else Exited 1 (console_error InvalidCommand (init s))))"

section \<open>Vocabulary of the properties\<close>

text \<open>The requests handed to axios, in order, whatever their outcome.\<close>

fun requests :: "'j event list \<Rightarrow> 'j request list" where
  "requests [] = []"
| "requests (Call req r # es) = req # requests es"
| "requests (e # es) = requests es"

fun is_sleep :: "'j event \<Rightarrow> bool" where
  "is_sleep (Sleep ms) = True"
| "is_sleep e = False"

text \<open>
  The distinct values of a list in the order of their first occurrence, written
  independently of \<open>set_add\<close>: what a set that iterates in insertion order holds after the
  values have been added one by one.
\<close>

fun first_occurrences :: "'a list \<Rightarrow> 'a list" where
  "first_occurrences [] = []"
| "first_occurrences (x # xs) = x # first_occurrences (filter (\<lambda>y. y \<noteq> x) xs)"

definition delete_group_request :: "string \<Rightarrow> 'j request" where
  "delete_group_request g = \<lparr>method = DELETE, url = group_url g, data = None\<rparr>"

text \<open>Every rejected group deletion in a list of events has its line on standard error.\<close>

definition failures_logged :: "'j event list \<Rightarrow> bool" where
  "failures_logged es =
     (\<forall>g e. Call (delete_group_request g) (Inl e) \<in> set es
        \<longrightarrow> Err (DeleteGroupError g (message e)) \<in> set es)"

section \<open>A reference remote for concrete runs\<close>

text \<open>
  An in-memory remote: a list of groups and a list of properties. Lookup by name answers
  404 for a name it does not hold; create appends; update replaces every field but the
  name; delete removes. It is one possible remote among many and serves to run the
  program on concrete inputs.
\<close>

record mem =
  mem_groups :: "group list"
  mem_properties :: "Property list"

definition not_found :: error where
  "not_found = AxiosResponseError 404 ''not found'' ''Request failed with status code 404''"

definition bad_request :: error where
  "bad_request = AxiosResponseError 400 ''bad request'' ''Request failed with status code 400''"

definition stored :: "'j payload \<Rightarrow> Property" where
  "stored d =
     \<lparr>name = data_name d, label = data_label d, type = data_type d,
      description = data_description d, groupName = data_groupName d,
      fieldType = data_fieldType d, options = None, readOnly = False, calculated = False,
      externalOptions = False, deleted = False, hubspotDefined = False\<rparr>"

definition mem_mutate :: "'j request \<Rightarrow> mem \<Rightarrow> (error + unit) \<times> mem" where
  "mem_mutate req s =
     (case method req of
        GET \<Rightarrow> (Inl bad_request, s)
      | POST \<Rightarrow>
          (case data req of
             None \<Rightarrow> (Inl bad_request, s)
           | Some (GroupBody n d) \<Rightarrow>
               (Inr (), s\<lparr>mem_groups := mem_groups s @ [\<lparr>group_name = n, group_displayName = d\<rparr>]\<rparr>)
           | Some (PropertyBody d) \<Rightarrow>
               (Inr (), s\<lparr>mem_properties := mem_properties s @ [stored d]\<rparr>))
      | PUT \<Rightarrow>
          (case data req of
             Some (PropertyBody d) \<Rightarrow>
               if list_ex (\<lambda>p. named_url (name p) = url req) (mem_properties s) then
                 (Inr (),
                  s\<lparr>mem_properties :=
                      map (\<lambda>p. if named_url (name p) = url req then (stored d)\<lparr>name := name p\<rparr> else p)
                        (mem_properties s)\<rparr>)
               else (Inl not_found, s)
           | _ \<Rightarrow> (Inl bad_request, s))
      | DELETE \<Rightarrow>
          if list_ex (\<lambda>p. named_url (name p) = url req) (mem_properties s) then
            (Inr (),
             s\<lparr>mem_properties := filter (\<lambda>p. named_url (name p) \<noteq> url req) (mem_properties s)\<rparr>)
          else if list_ex (\<lambda>g. group_url (group_name g) = url req) (mem_groups s) then
            (Inr (),
             s\<lparr>mem_groups := filter (\<lambda>g. group_url (group_name g) \<noteq> url req) (mem_groups s)\<rparr>)
          else (Inl not_found, s))"

definition mem_remote :: "(mem, 'j) remote" where
  "mem_remote =
     \<lparr>list_groups = (\<lambda>req s. (Inr (mem_groups s), s)),
      list_properties = (\<lambda>req s. (Inr (mem_properties s), s)),
      fetch_property =
        (\<lambda>req s. case find (\<lambda>p. named_url (name p) = url req) (mem_properties s) of
                    Some p \<Rightarrow> (Inr (Some p), s)
                  | None \<Rightarrow> (Inl not_found, s)),
      mutate = mem_mutate\<rparr>"

text \<open>Rows and properties for the concrete runs.\<close>

definition example_row :: "string \<Rightarrow> string \<Rightarrow> string \<Rightarrow> string \<Rightarrow> row" where
  "example_row n g opts builtin =
     \<lparr>Internal_name = n, Name = n, Type = ''string'', Description = [], Group_name = g,
      Form_field = ''true'', Options = opts, Read_only_value = ''false'',
      Calculated = ''false'', External_options = ''false'', Deleted = ''false'',
      Hubspot_defined = builtin\<rparr>"

definition example_property :: "string \<Rightarrow> bool \<Rightarrow> Property" where
  "example_property n ro =
     \<lparr>name = n, label = n, type = ''string'', description = [], groupName = ''leadinfo'',
      fieldType = ''text'', options = None, readOnly = ro, calculated = False,
      externalOptions = False, deleted = False, hubspotDefined = False\<rparr>"

definition groups_csv :: "string \<Rightarrow> row list" where
  "groups_csv p =
     [example_row ''score'' ''leadinfo'' [] ''true'',
      example_row ''plan'' ''billing'' [] ''false'',
      example_row ''stage'' ''leadinfo'' [] ''false'']"

definition billing_store :: mem where
  "billing_store =
     \<lparr>mem_groups = [\<lparr>group_name = ''billing'', group_displayName = ''Billing''\<rparr>],
      mem_properties = []\<rparr>"

section \<open>Vocabulary of the Batch Deleter\<close>

text \<open>The three requests of \<^verbatim>\<open>deletePropertiesFromCSV\<close>, as the source builds them.\<close>

definition snapshot_request :: "'j request" where
  "snapshot_request = \<lparr>method = GET, url = BASE_URL, data = None\<rparr>"

definition lookup_request :: "string \<Rightarrow> 'j request" where
  "lookup_request n = \<lparr>method = GET, url = named_url n, data = None\<rparr>"

definition delete_property_request :: "string \<Rightarrow> 'j request" where
  "delete_property_request n = \<lparr>method = DELETE, url = named_url n, data = None\<rparr>"

text \<open>
  The outcome of a lookup that found an entity: the request was fulfilled with an object
  (\<open>answered\<close> for what the handler answers, \<open>found\<close> for its record in the events).
  The outcome of a detail fetch that protects the entry: the fetch was rejected or found
  nothing, or the entity it answered with has \<^verbatim>\<open>readOnly\<close> true.
\<close>

definition answered :: "error + Property option \<Rightarrow> bool" where
  "answered r = (case r of Inr (Some d) \<Rightarrow> True | Inr None \<Rightarrow> False | Inl e \<Rightarrow> False)"

definition found :: "error + response \<Rightarrow> bool" where
  "found r = (case r of Inr (PropertyData (Some d)) \<Rightarrow> True | Inr other \<Rightarrow> False | Inl e \<Rightarrow> False)"

definition protected :: "error + response \<Rightarrow> bool" where
  "protected r =
     (case r of
        Inl e \<Rightarrow> True
      | Inr (PropertyData None) \<Rightarrow> True
      | Inr (PropertyData (Some d)) \<Rightarrow> readOnly d
      | Inr other \<Rightarrow> False)"

text \<open>
  The events of one iteration for the name \<open>n\<close>, given the snapshot \<open>cp\<close> and the outcomes of
  the detail fetch and of the delete request (read only where the iteration gets that
  far), and the names the iteration adds to the failure list.
\<close>

definition deletion_events ::
  "Property list \<Rightarrow> nat \<Rightarrow> nat \<Rightarrow> string \<Rightarrow> (error + response) \<times> (error + response)
    \<Rightarrow> 'j event list" where
  "deletion_events cp k i n out =
     Out (ProcessingDeletion i k n) #
     (if list_ex (\<lambda>prop. name prop = n) cp then
        Call (lookup_request n) (fst out) #
        (if protected (fst out) then [Out (SkippingProperty n)]
         else [Call (delete_property_request n) (snd out),
               case snd out of Inl e \<Rightarrow> Err (DeletePropertyError n (message e))
                           | Inr d \<Rightarrow> Out (DeletedProperty n)])
        @ [Sleep 1000]
      else [Out (NotFoundInCustom n)])"

definition deletion_failed ::
  "Property list \<Rightarrow> string \<Rightarrow> (error + response) \<times> (error + response) \<Rightarrow> string list" where
  "deletion_failed cp n out =
     (if list_ex (\<lambda>prop. name prop = n) cp \<and> (protected (fst out) \<or> isl (snd out)) then [n] else [])"

fun deletions_trace ::
  "Property list \<Rightarrow> nat \<Rightarrow> nat \<Rightarrow> string list \<Rightarrow> ((error + response) \<times> (error + response)) list
    \<Rightarrow> 'j event list" where
  "deletions_trace cp k i (n # ns) (out # os) =
     deletion_events cp k i n out @ deletions_trace cp k (i + 1) ns os"
| "deletions_trace cp k i ns os = []"

fun deletions_failed ::
  "Property list \<Rightarrow> string list \<Rightarrow> ((error + response) \<times> (error + response)) list
    \<Rightarrow> string list" where
  "deletions_failed cp (n # ns) (out # os) = deletion_failed cp n out @ deletions_failed cp ns os"
| "deletions_failed cp ns os = []"

text \<open>
  What \<^verbatim>\<open>getAllCustomProperties\<close> makes of the answer to the snapshot request, and what it
  prints; the report of the failure list at the end of the run.
\<close>

definition custom_of :: "error + Property list \<Rightarrow> Property list" where
  "custom_of r = (case r of Inl e \<Rightarrow> [] | Inr ps \<Rightarrow> filter (\<lambda>prop. \<not> hubspotDefined prop) ps)"

definition snapshot_events :: "error + Property list \<Rightarrow> 'j event list" where
  "snapshot_events r =
     [Out FetchingCustom,
      Call snapshot_request (case r of Inl e \<Rightarrow> Inl e | Inr ps \<Rightarrow> Inr (PropertiesData ps)),
      case r of Inl e \<Rightarrow> Err (FetchCustomError e)
              | Inr ps \<Rightarrow> Out (FoundCustom (length (custom_of r)))]"

definition failure_report :: "string list \<Rightarrow> 'j event list" where
  "failure_report fl = (if fl = [] then [] else [Err (FailedDeletions fl)])"

text \<open>
  A store with one deletable and one read-only property, a CSV that names both, an
  unknown property, a built-in row and a duplicate; and a remote whose snapshot request
  is rejected.
\<close>

definition crm_store :: mem where
  "crm_store =
     \<lparr>mem_groups = [\<lparr>group_name = ''leadinfo'', group_displayName = ''Lead info''\<rparr>],
      mem_properties = [example_property ''score'' False, example_property ''owner'' True]\<rparr>"

definition batch_csv :: "string \<Rightarrow> row list" where
  "batch_csv p =
     [example_row ''score'' ''leadinfo'' [] ''false'',
      example_row ''owner'' ''leadinfo'' [] ''false'',
      example_row ''ghost'' ''leadinfo'' [] ''false'',
      example_row ''email'' ''contactinformation'' [] ''true'',
      example_row ''score'' ''leadinfo'' [] ''false'']"

definition offline_remote :: "(mem, 'j) remote" where
  "offline_remote =
     mem_remote\<lparr>list_properties := (\<lambda>req s. (Inl (AxiosNetworkError ''timeout''), s))\<rparr>"

section \<open>Vocabulary of the Reconciler\<close>

text \<open>The requests of \<^verbatim>\<open>createGroupIfNotExists\<close> and \<^verbatim>\<open>createOrUpdateProperty\<close>.\<close>

definition groups_request :: "'j request" where
  "groups_request = \<lparr>method = GET, url = GROUPS_URL, data = None\<rparr>"

definition create_group_request :: "string \<Rightarrow> 'j request" where
  "create_group_request g = \<lparr>method = POST, url = GROUPS_URL, data = Some (GroupBody g g)\<rparr>"

definition create_request :: "'j payload \<Rightarrow> 'j request" where
  "create_request d = \<lparr>method = POST, url = BASE_URL, data = Some (PropertyBody d)\<rparr>"

definition update_request :: "string \<Rightarrow> 'j payload \<Rightarrow> 'j request" where
  "update_request n d = \<lparr>method = PUT, url = named_url n, data = Some (PropertyBody d)\<rparr>"

text \<open>A create-or-update request is one that carries a property payload.\<close>

definition is_create_or_update :: "'j request \<Rightarrow> bool" where
  "is_create_or_update req =
     (case data req of Some (PropertyBody d) \<Rightarrow> True | Some (GroupBody n d) \<Rightarrow> False | None \<Rightarrow> False)"

text \<open>
  The events of the group check for \<open>g\<close>, given the outcomes \<open>rg\<close> of the list request and
  \<open>rc\<close> of the create request (read only when the group is missing from the list).
\<close>

definition group_events :: "string \<Rightarrow> error + response \<Rightarrow> error + response \<Rightarrow> 'j event list" where
  "group_events g rg rc =
     Call groups_request rg #
     (case rg of
        Inl e \<Rightarrow> [Err (GroupError g (message e))]
      | Inr (GroupsData groups) \<Rightarrow>
          if list_ex (\<lambda>group. group_name group = g) groups then []
          else [Call (create_group_request g) rc,
                case rc of Inl e \<Rightarrow> Err (GroupError g (message e)) | Inr u \<Rightarrow> Out (CreatedGroup g)]
      | Inr other \<Rightarrow> [])"

text \<open>
  The events of \<^verbatim>\<open>createOrUpdateProperty\<close> for \<open>prop\<close>, given the outcomes \<open>rl\<close> of the lookup
  and \<open>rm\<close> of the create-or-update request (read only when the payload could be built).
\<close>

definition property_events ::
  "(string \<Rightarrow> string + 'j) \<Rightarrow> Property \<Rightarrow> error + response \<Rightarrow> error + response \<Rightarrow> 'j event list" where
  "property_events parse prop rl rm =
     Call (lookup_request (name prop)) rl #
     (case property_data parse prop of
        Inl e \<Rightarrow> [Err (property_error_msg (name prop) e)]
      | Inr d \<Rightarrow>
          [Call (if found rl then update_request (name prop) d else create_request d) rm,
           case rm of
             Inl e \<Rightarrow> Err (property_error_msg (name prop) e)
           | Inr u \<Rightarrow> Out (if found rl then UpdatedProperty (name prop)
                            else CreatedProperty (name prop))])"

text \<open>The four outcomes of one row: group list, group create, lookup, create-or-update.\<close>

record outcomes =
  listed :: "error + response"
  group_created :: "error + response"
  looked_up :: "error + response"
  mutated :: "error + response"

definition row_events ::
  "(string \<Rightarrow> string + 'j) \<Rightarrow> nat \<Rightarrow> nat \<Rightarrow> Property \<Rightarrow> outcomes \<Rightarrow> 'j event list" where
  "row_events parse k i prop out =
     Out (ProcessingProperty (i + 1) k (name prop))
     # group_events (groupName prop) (listed out) (group_created out)
     @ property_events parse prop (looked_up out) (mutated out)"

fun import_trace ::
  "(string \<Rightarrow> string + 'j) \<Rightarrow> nat \<Rightarrow> nat \<Rightarrow> Property list \<Rightarrow> outcomes list \<Rightarrow> 'j event list" where
  "import_trace parse k i (prop # rest) (out # outs) =
     row_events parse k i prop out @ import_trace parse k (i + 1) rest outs"
| "import_trace parse k i props outs = []"

text \<open>A lookup is a \<^verbatim>\<open>GET\<close> that is not the list of groups.\<close>

definition is_lookup :: "'j request \<Rightarrow> bool" where
  "is_lookup req = (method req = GET \<and> url req \<noteq> GROUPS_URL)"

text \<open>
  The options of a property are malformed when they are present, not the empty string, and
  \<^verbatim>\<open>JSON.parse\<close> throws on them.
\<close>

definition malformed :: "(string \<Rightarrow> string + 'j) \<Rightarrow> Property \<Rightarrow> bool" where
  "malformed parse prop =
     (case options prop of None \<Rightarrow> False | Some s \<Rightarrow> s \<noteq> [] \<and> isl (parse s))"

text \<open>
  The requests of one row, in order, given whether the group had to be created and whether
  the lookup found the property.
\<close>

definition row_requests ::
  "(string \<Rightarrow> string + 'j) \<Rightarrow> Property \<Rightarrow> bool \<times> bool \<Rightarrow> 'j request list" where
  "row_requests parse prop flags =
     groups_request
     # (if fst flags then [create_group_request (groupName prop)] else [])
     @ lookup_request (name prop)
     # (case property_data parse prop of
          Inl e \<Rightarrow> []
        | Inr d \<Rightarrow> [if snd flags then update_request (name prop) d else create_request d])"

text \<open>What the outcomes of a row say about its requests: the group was missing, the lookup found.\<close>

definition flags_of :: "string \<Rightarrow> outcomes \<Rightarrow> bool \<times> bool" where
  "flags_of g out =
     (case listed out of
        Inr (GroupsData groups) \<Rightarrow> \<not> list_ex (\<lambda>group. group_name group = g) groups
      | Inr other \<Rightarrow> False
      | Inl e \<Rightarrow> False,
      found (looked_up out))"

text \<open>
  A stand-in for \<^verbatim>\<open>JSON.parse\<close> that knows two texts and throws on every other; a CSV with
  an existing property, a built-in row, a row with malformed options and a new property
  in a new group; a remote whose lookups are all rejected with status 503.
\<close>

definition example_parse :: "string \<Rightarrow> string + nat list" where
  "example_parse x =
     (if x = ''[]'' then Inr [] else if x = ''[1]'' then Inr [1]
      else Inl ''Unexpected token in JSON'')"

definition import_csv :: "string \<Rightarrow> row list" where
  "import_csv p =
     [example_row ''score'' ''leadinfo'' ''[1]'' ''false'',
      example_row ''email'' ''contactinformation'' [] ''true'',
      example_row ''tier'' ''leadinfo'' ''{oops'' ''false'',
      example_row ''stage'' ''sales'' [] ''false'']"

definition malformed_csv :: "string \<Rightarrow> row list" where
  "malformed_csv p = [example_row ''tier'' ''leadinfo'' ''{oops'' ''false'']"

definition example_payload :: "string \<Rightarrow> string \<Rightarrow> nat list option \<Rightarrow> nat list payload" where
  "example_payload n g opts =
     \<lparr>data_name = n, data_label = n, data_description = [], data_groupName = g,
      data_type = ''string'', data_fieldType = ''text'', data_formField = True,
      data_options = opts\<rparr>"




section \<open>Vocabulary of idempotence\<close>

text \<open>
  A name is present in a state of the remote when the lookup by name is fulfilled there
  with an entity.
\<close>

definition present :: "('s, 'j) remote \<Rightarrow> 's \<Rightarrow> string \<Rightarrow> bool" where
  "present R s n = answered (fst (fetch_property R (lookup_request n) s))"


text \<open>
  An event confirms a name when it is a lookup of the name that found an entity or a
  create request for the name that succeeded; it recreates the name when it is a create
  request for it, whatever the outcome; it misses the name when it is a lookup of it that
  found nothing (rejected, or fulfilled with falsy data).
\<close>

definition confirms :: "string \<Rightarrow> 'j event \<Rightarrow> bool" where
  "confirms n e =
     ((\<exists>r. e = Call (lookup_request n) r \<and> found r)
      \<or> (\<exists>d r. e = Call (create_request d) (Inr r) \<and> data_name d = n))"

definition recreates :: "string \<Rightarrow> 'j event \<Rightarrow> bool" where
  "recreates n e = (\<exists>d r. e = Call (create_request d) r \<and> data_name d = n)"

definition misses :: "string \<Rightarrow> 'j event \<Rightarrow> bool" where
  "misses n e = (\<exists>r. e = Call (lookup_request n) r \<and> \<not> found r)"

text \<open>
  In an idempotent list of events, once a name is confirmed, no later event creates it
  again and every later lookup of it finds it.
\<close>

definition idempotent :: "'j event list \<Rightarrow> bool" where
  "idempotent es =
     (\<forall>pre e post n. es = pre @ e # post \<and> (\<exists>e'\<in>set pre. confirms n e')
        \<longrightarrow> \<not> recreates n e \<and> \<not> misses n e)"


definition consistent :: "('s, 'j) remote \<Rightarrow> ('s, 'j) world \<Rightarrow> bool" where
  "consistent R w =
     (idempotent (events w)
      \<and> (\<forall>n. (\<exists>e\<in>set (events w). confirms n e) \<longrightarrow> present R (store w) n))"

text \<open>
  A configuration error: the credential is unset (or empty), the path argument is missing
  (or empty), or the command is none of the three.
\<close>

definition config_error :: "string option \<Rightarrow> string list \<Rightarrow> bool" where
  "config_error API_KEY argv =
     (falsy API_KEY \<or> falsy (arg (drop 2 argv) 1)
      \<or> arg (drop 2 argv) 0
          \<notin> {Some ''import'', Some ''delete-properties'', Some ''delete-groups''})"

text \<open>
  The progress line that each workflow prints at the head of every iteration of its loop;
  the number of items the workflow of a command iterates over, for the rows of its file;
  the last line a workflow prints.
\<close>

fun is_progress :: "'j event \<Rightarrow> bool" where
  "is_progress (Out (ProcessingProperty i k n)) = True"
| "is_progress (Out (ProcessingDeletion i k n)) = True"
| "is_progress (Out (ProcessingGroupDeletion i k n)) = True"
| "is_progress e = False"

definition items :: "string option \<Rightarrow> row list \<Rightarrow> nat" where
  "items command rows =
     (if command = Some ''import'' then length (read_properties rows)
      else if command = Some ''delete-properties'' then length (read_propertiesToDelete rows)
      else length (read_groups rows))"

definition completion :: "string option \<Rightarrow> log_msg" where
  "completion command =
     (if command = Some ''import'' then ImportCompleted
      else if command = Some ''delete-properties'' then PropertyDeletionCompleted
      else GroupDeletionCompleted)"

text \<open>A file system with one readable file.\<close>

definition example_fs :: "string \<Rightarrow> row list option" where
  "example_fs path = (if path = ''export.csv'' then Some (groups_csv path) else None)"

section \<open>Basic facts\<close>

lemma requests_append [simp]: "requests (xs @ ys) = requests xs @ requests ys"
  by (induction xs rule: requests.induct) simp_all

lemma set_first_occurrences: "set (first_occurrences xs) = set xs"
  by (induction xs rule: first_occurrences.induct) auto

lemma distinct_first_occurrences: "distinct (first_occurrences xs)"
  by (induction xs rule: first_occurrences.induct) (auto simp: set_first_occurrences)

lemma fold_set_add:
  "fold set_add xs acc = acc @ first_occurrences (filter (\<lambda>x. x \<notin> set acc) xs)"
proof (induction xs arbitrary: acc)
  case Nil
  then show ?case by simp
next
  case (Cons x xs)
  show ?case
  proof (cases "x \<in> set acc")
    case True
    then show ?thesis using Cons.IH [of acc] by (simp add: set_add_def)
  next
    case False
    have "filter (\<lambda>y. y \<notin> set (acc @ [x])) xs = filter (\<lambda>y. y \<noteq> x) (filter (\<lambda>y. y \<notin> set acc) xs)"
      by (induction xs) auto
    then show ?thesis using False Cons.IH [of "acc @ [x]"] by (simp add: set_add_def)
  qed
qed

lemma read_groups_eq: "read_groups rows = first_occurrences (map Group_name rows)"
proof -
  have "read_groups rows = fold set_add (map Group_name rows) []"
    by (simp add: read_groups_def fold_map comp_def)
  then show ?thesis by (simp add: fold_set_add)
qed

lemma group_url_inj [simp]: "group_url a = group_url b \<longleftrightarrow> a = b"
  by (simp add: group_url_def)

lemma named_url_inj [simp]: "named_url a = named_url b \<longleftrightarrow> a = b"
  by (simp add: named_url_def)

lemma delete_group_request_inj [simp]:
  "delete_group_request a = delete_group_request b \<longleftrightarrow> a = b"
  by (simp add: delete_group_request_def)

section \<open>Grouping Deleter\<close>

lemma deleteGroup_events:
  "\<exists>r. events (deleteGroup R g w) =
     events w @ [Call (delete_group_request g) r,
                 case r of Inl e \<Rightarrow> Err (DeleteGroupError g (message e)) | Inr d \<Rightarrow> Out (DeletedGroup g)]"
  by (auto simp: deleteGroup_def axios_def console_log_def console_error_def delete_group_request_def
      split: prod.splits sum.splits)

lemma group_loop_requests:
  "requests (events (group_loop R n i gs w)) = requests (events w) @ map delete_group_request gs"
proof (induction gs arbitrary: i w)
  case Nil
  then show ?case by simp
next
  case (Cons g gs)
  obtain r where "events (deleteGroup R g (console_log (ProcessingGroupDeletion i n g) w)) =
      events (console_log (ProcessingGroupDeletion i n g) w) @
        [Call (delete_group_request g) r,
         case r of Inl e \<Rightarrow> Err (DeleteGroupError g (message e)) | Inr d \<Rightarrow> Out (DeletedGroup g)]"
    using deleteGroup_events by blast
  then show ?case using Cons.IH
    by (simp add: console_log_def split: sum.splits)
qed

lemma group_loop_sleep:
  "filter is_sleep (events (group_loop R n i gs w)) = filter is_sleep (events w)"
proof (induction gs arbitrary: i w)
  case Nil
  then show ?case by simp
next
  case (Cons g gs)
  obtain r where "events (deleteGroup R g (console_log (ProcessingGroupDeletion i n g) w)) =
      events (console_log (ProcessingGroupDeletion i n g) w) @
        [Call (delete_group_request g) r,
         case r of Inl e \<Rightarrow> Err (DeleteGroupError g (message e)) | Inr d \<Rightarrow> Out (DeletedGroup g)]"
    using deleteGroup_events by blast
  then show ?case using Cons.IH
    by (simp add: console_log_def split: sum.splits)
qed

lemma group_loop_logged:
  "failures_logged (events w) \<Longrightarrow> failures_logged (events (group_loop R n i gs w))"
proof (induction gs arbitrary: i w)
  case Nil
  then show ?case by simp
next
  case (Cons g gs)
  let ?w0 = "console_log (ProcessingGroupDeletion i n g) w"
  obtain r where ev: "events (deleteGroup R g ?w0) =
      events ?w0 @
        [Call (delete_group_request g) r,
         case r of Inl e \<Rightarrow> Err (DeleteGroupError g (message e)) | Inr d \<Rightarrow> Out (DeletedGroup g)]"
    using deleteGroup_events by blast
  have "failures_logged (events (deleteGroup R g ?w0))"
    using Cons.prems unfolding ev failures_logged_def
    by (auto simp: console_log_def split: sum.splits)
  then show ?case using Cons.IH by simp
qed

text \<open>
  Claim C8. Run from a world with no events, \<open>deleteGroupsFromCSV\<close> hands to axios exactly
  one \<^verbatim>\<open>DELETE\<close> by name per distinct \<^verbatim>\<open>Group name\<close> value of the rows, all rows counted
  (the \<^verbatim>\<open>Hubspot defined\<close> column is not read), in the order of first occurrence, and no
  other request: no snapshot of the remote is fetched and no detail is looked up. It
  never pauses. Every rejected deletion is reported on standard error, and the deletions
  after it are still requested.
\<close>

theorem deleteGroupsFromCSV_one_delete_per_group:
  "requests (events (deleteGroupsFromCSV R csv filePath (init s))) =
     map delete_group_request (first_occurrences (map Group_name (csv filePath)))
   \<and> distinct (first_occurrences (map Group_name (csv filePath)))
   \<and> set (first_occurrences (map Group_name (csv filePath))) = Group_name ` set (csv filePath)
   \<and> filter is_sleep (events (deleteGroupsFromCSV R csv filePath (init s))) = []
   \<and> failures_logged (events (deleteGroupsFromCSV R csv filePath (init s)))"
proof -
  let ?gs = "read_groups (csv filePath)"
  let ?w0 = "console_log (FoundGroups (length ?gs))
               (console_log (StartingGroupDeletion filePath) (init s))"
  have ev: "events (deleteGroupsFromCSV R csv filePath (init s)) =
      events (group_loop R (length ?gs) 1 ?gs ?w0) @ [Out GroupDeletionCompleted]"
    by (simp add: deleteGroupsFromCSV_def Let_def console_log_def)
  have w0: "events ?w0 = [Out (StartingGroupDeletion filePath), Out (FoundGroups (length ?gs))]"
    by (simp add: console_log_def init_def)
  have 1: "requests (events (deleteGroupsFromCSV R csv filePath (init s))) =
     map delete_group_request (first_occurrences (map Group_name (csv filePath)))"
    unfolding ev requests_append group_loop_requests w0 by (simp add: read_groups_eq)
  have 2: "filter is_sleep (events (deleteGroupsFromCSV R csv filePath (init s))) = []"
    by (simp add: ev group_loop_sleep w0)
  have "failures_logged (events ?w0)"
    by (simp add: w0 failures_logged_def)
  then have "failures_logged (events (group_loop R (length ?gs) 1 ?gs ?w0))"
    by (rule group_loop_logged)
  then have 3: "failures_logged (events (deleteGroupsFromCSV R csv filePath (init s)))"
    unfolding ev failures_logged_def by auto
  show ?thesis using 1 2 3
    by (simp add: distinct_first_occurrences set_first_occurrences)
qed

lemmas run_defs =
  deleteGroupsFromCSV_def deleteGroup_def read_groups_def set_add_def axios_def console_log_def
  console_error_def setTimeout_def init_def mem_remote_def mem_mutate_def example_row_def
  Let_def

theorem deleteGroupsFromCSV_one_delete_per_group_witness:
  "requests (events (deleteGroupsFromCSV (mem_remote :: (mem, unit) remote) groups_csv
       ''export.csv'' (init billing_store))) =
     [delete_group_request ''leadinfo'', delete_group_request ''billing'']
   \<and> Call (delete_group_request ''leadinfo'') (Inl not_found)
       \<in> set (events (deleteGroupsFromCSV (mem_remote :: (mem, unit) remote) groups_csv
                  ''export.csv'' (init billing_store)))
   \<and> Err (DeleteGroupError ''leadinfo'' (message not_found))
       \<in> set (events (deleteGroupsFromCSV (mem_remote :: (mem, unit) remote) groups_csv
                  ''export.csv'' (init billing_store)))"
proof -
  let ?ev = "events (deleteGroupsFromCSV (mem_remote :: (mem, unit) remote) groups_csv
               ''export.csv'' (init billing_store))"
  have c: "Call (delete_group_request ''leadinfo'') (Inl not_found) \<in> set ?ev"
    by (simp add: run_defs groups_csv_def billing_store_def delete_group_request_def)
  from deleteGroupsFromCSV_one_delete_per_group
         [of "mem_remote :: (mem, unit) remote" groups_csv "''export.csv''" billing_store]
  have r: "requests ?ev =
             map delete_group_request (first_occurrences (map Group_name (groups_csv ''export.csv'')))"
    and l: "failures_logged ?ev"
    by simp_all
  from l c have "Err (DeleteGroupError ''leadinfo'' (message not_found)) \<in> set ?ev"
    unfolding failures_logged_def by blast
  with c r show ?thesis by (simp add: groups_csv_def example_row_def)
qed

section \<open>Batch Deleter\<close>

lemma getPropertyDetails_events:
  "\<exists>r. getPropertyDetails R n w =
         (case r of Inl e \<Rightarrow> None | Inr d \<Rightarrow> d,
          \<lparr>store = snd (fetch_property R (lookup_request n) (store w)),
           events = events w @ [Call (lookup_request n) (case r of Inl e \<Rightarrow> Inl e | Inr d \<Rightarrow> Inr (PropertyData d))]\<rparr>)
       \<and> r = fst (fetch_property R (lookup_request n) (store w))"
  by (auto simp: getPropertyDetails_def axios_def lookup_request_def split: prod.splits sum.splits)

lemma delete_body_events:
  "\<exists>out. fst (delete_body R cp k i n fl w) = fl @ deletion_failed cp n out
      \<and> events (snd (delete_body R cp k i n fl w)) = events w @ deletion_events cp k i n out"
proof (cases "list_ex (\<lambda>prop. name prop = n) cp")
  case False
  then show ?thesis
    by (simp add: delete_body_def deletion_failed_def deletion_events_def console_log_def Let_def)
next
  case True
  let ?w0 = "console_log (ProcessingDeletion i k n) w"
  obtain r where r: "getPropertyDetails R n ?w0 =
         (case r of Inl e \<Rightarrow> None | Inr d \<Rightarrow> d,
          \<lparr>store = snd (fetch_property R (lookup_request n) (store ?w0)),
           events = events ?w0 @ [Call (lookup_request n) (case r of Inl e \<Rightarrow> Inl e | Inr d \<Rightarrow> Inr (PropertyData d))]\<rparr>)"
    using getPropertyDetails_events by blast
  show ?thesis
  proof (cases "protected (case r of Inl e \<Rightarrow> Inl e | Inr d \<Rightarrow> Inr (PropertyData d))")
    case p: True
    show ?thesis
      apply (rule exI [of _ "(case r of Inl e \<Rightarrow> Inl e | Inr d \<Rightarrow> Inr (PropertyData d), Inl undefined)"])
      using True p r
      by (auto simp: delete_body_def deletion_failed_def deletion_events_def console_log_def Let_def
          setTimeout_def protected_def split: sum.splits option.splits)
  next
    case p: False
    then obtain d where d: "r = Inr (Some d)" "\<not> readOnly d"
      by (auto simp: protected_def split: sum.splits option.splits)
    let ?w1 = "snd (getPropertyDetails R n ?w0)"
    obtain r2 s2 where r2: "mutate R (delete_property_request n) (store ?w1) = (r2, s2)"
      by fastforce
    show ?thesis
      apply (rule exI [of _ "(Inr (PropertyData (Some d)), case r2 of Inl e \<Rightarrow> Inl e | Inr u \<Rightarrow> Inr NoData)"])
      using True d r r2
      by (auto simp: delete_body_def deletion_failed_def deletion_events_def console_log_def Let_def
          setTimeout_def protected_def deleteProperty_def axios_def console_error_def
          delete_property_request_def split: sum.splits)
  qed
qed

lemma delete_loop_events:
  "\<exists>os. length os = length ns
      \<and> fst (delete_loop R cp k i ns fl w) = fl @ deletions_failed cp ns os
      \<and> events (snd (delete_loop R cp k i ns fl w)) = events w @ deletions_trace cp k i ns os"
proof (induction ns arbitrary: i fl w)
  case Nil
  then show ?case by simp
next
  case (Cons n ns)
  obtain fl1 w1 where b: "delete_body R cp k i n fl w = (fl1, w1)"
    by fastforce
  obtain o1 where o1: "fl1 = fl @ deletion_failed cp n o1"
      "events w1 = events w @ deletion_events cp k i n o1"
    using delete_body_events [of R cp k i n fl w] b by auto
  obtain os where os: "length os = length ns"
      "fst (delete_loop R cp k (i + 1) ns fl1 w1) = fl1 @ deletions_failed cp ns os"
      "events (snd (delete_loop R cp k (i + 1) ns fl1 w1)) = events w1 @ deletions_trace cp k (i + 1) ns os"
    using Cons.IH by blast
  show ?case
    apply (rule exI [of _ "o1 # os"])
    using b o1 os by simp
qed

lemma getAllCustomProperties_result:
  "getAllCustomProperties R w =
     (custom_of (fst (list_properties R snapshot_request (store w))),
      \<lparr>store = snd (list_properties R snapshot_request (store w)),
       events = events w @ snapshot_events (fst (list_properties R snapshot_request (store w)))\<rparr>)"
  by (auto simp: getAllCustomProperties_def axios_def snapshot_request_def custom_of_def
      snapshot_events_def console_log_def console_error_def Let_def split: prod.splits sum.splits)

lemma read_propertiesToDelete_eq:
  "read_propertiesToDelete rows =
     first_occurrences (map Internal_name (filter (\<lambda>r. Hubspot_defined r \<noteq> ''true'') rows))"
proof -
  have "fold (\<lambda>r acc. if Hubspot_defined r \<noteq> ''true'' then set_add (Internal_name r) acc else acc) rows acc
        = fold set_add (map Internal_name (filter (\<lambda>r. Hubspot_defined r \<noteq> ''true'') rows)) acc" for acc
    by (induction rows arbitrary: acc) simp_all
  then show ?thesis by (simp add: read_propertiesToDelete_def fold_set_add)
qed

lemma deletePropertiesFromCSV_events:
  "\<exists>os. length os = length (read_propertiesToDelete (csv filePath))
     \<and> events (deletePropertiesFromCSV R csv filePath (init s)) =
         Out (StartingPropertyDeletion filePath)
         # snapshot_events (fst (list_properties R snapshot_request s))
         @ Out (FoundToDelete (length (read_propertiesToDelete (csv filePath))))
         # deletions_trace (custom_of (fst (list_properties R snapshot_request s)))
             (length (read_propertiesToDelete (csv filePath))) 1
             (read_propertiesToDelete (csv filePath)) os
         @ failure_report
             (deletions_failed (custom_of (fst (list_properties R snapshot_request s)))
                (read_propertiesToDelete (csv filePath)) os)
         @ [Out PropertyDeletionCompleted]"
proof -
  let ?ns = "read_propertiesToDelete (csv filePath)"
  let ?r = "fst (list_properties R snapshot_request s)"
  let ?w1 = "console_log (FoundToDelete (length ?ns))
     (snd (getAllCustomProperties R (console_log (StartingPropertyDeletion filePath) (init s))))"
  obtain os where os: "length os = length ?ns"
      "fst (delete_loop R (custom_of ?r) (length ?ns) 1 ?ns [] ?w1) = [] @ deletions_failed (custom_of ?r) ?ns os"
      "events (snd (delete_loop R (custom_of ?r) (length ?ns) 1 ?ns [] ?w1)) =
         events ?w1 @ deletions_trace (custom_of ?r) (length ?ns) 1 ?ns os"
    using delete_loop_events [of ?ns R "custom_of ?r" "length ?ns" 1 "[]" ?w1] by blast
  have w1: "events ?w1 = Out (StartingPropertyDeletion filePath) # snapshot_events ?r
               @ [Out (FoundToDelete (length ?ns))]"
    by (simp add: getAllCustomProperties_result console_log_def init_def)
  have "events (deletePropertiesFromCSV R csv filePath (init s)) =
      events (snd (delete_loop R (custom_of ?r) (length ?ns) 1 ?ns [] ?w1))
      @ failure_report (fst (delete_loop R (custom_of ?r) (length ?ns) 1 ?ns [] ?w1))
      @ [Out PropertyDeletionCompleted]"
    by (simp add: deletePropertiesFromCSV_def getAllCustomProperties_result console_log_def
        console_error_def init_def failure_report_def Let_def split: prod.splits)
  then show ?thesis using os w1 by auto
qed

lemma requests_mem: "req \<in> set (requests es) \<longleftrightarrow> (\<exists>r. Call req r \<in> set es)"
  by (induction es rule: requests.induct) auto

lemma named_url_neq_BASE [simp]: "named_url n \<noteq> BASE_URL" "BASE_URL \<noteq> named_url n"
  by (simp_all add: named_url_def)

lemma lookup_request_simps [simp]:
  "lookup_request a = lookup_request b \<longleftrightarrow> a = b"
  "lookup_request a \<noteq> delete_property_request b"
  "delete_property_request b \<noteq> lookup_request a"
  "delete_property_request a = delete_property_request b \<longleftrightarrow> a = b"
  "lookup_request a \<noteq> snapshot_request"
  "delete_property_request a \<noteq> snapshot_request"
  "snapshot_request \<noteq> lookup_request a"
  "snapshot_request \<noteq> delete_property_request a"
  by (simp_all add: lookup_request_def delete_property_request_def snapshot_request_def)

lemma requests_snapshot_events [simp]: "requests (snapshot_events r) = [snapshot_request]"
  by (simp add: snapshot_events_def split: sum.splits)

lemma requests_failure_report [simp]: "requests (failure_report fl) = []"
  by (simp add: failure_report_def)

lemma deletions_trace_calls:
  "Call req r \<in> set (deletions_trace cp k i ns os) \<Longrightarrow>
     \<exists>n\<in>set ns. list_ex (\<lambda>prop. name prop = n) cp
        \<and> (req = lookup_request n \<or> req = delete_property_request n)"
  by (induction cp k i ns os rule: deletions_trace.induct)
     (auto simp: deletion_events_def split: if_splits sum.splits)

lemma deletions_trace_protected:
  "distinct ns \<Longrightarrow>
     Call (lookup_request n) r \<in> set (deletions_trace cp k i ns os :: 'j event list) \<Longrightarrow>
     protected r \<Longrightarrow>
     delete_property_request n \<notin> set (requests (deletions_trace cp k i ns os :: 'j event list))
     \<and> n \<in> set (deletions_failed cp ns os)"
proof (induction cp k i ns os rule: deletions_trace.induct)
  case (1 cp k i m ns out os)
  let ?here = "deletion_events cp k i m out :: 'j event list"
  let ?rest = "deletions_trace cp k (i + 1) ns os :: 'j event list"
  show ?case
  proof (cases "Call (lookup_request n) r \<in> set ?here")
    case True
    then have m: "m = n" "r = fst out" "list_ex (\<lambda>prop. name prop = n) cp"
      by (auto simp: deletion_events_def split: if_splits sum.splits)
    have "delete_property_request n \<notin> set (requests ?rest)"
      using deletions_trace_calls [of "delete_property_request n" _ cp k "i + 1" ns os] "1.prems"(1) m
      by (auto simp: requests_mem)
    moreover have "delete_property_request n \<notin> set (requests ?here)"
      using m "1.prems"(3) by (simp add: deletion_events_def)
    ultimately show ?thesis using m "1.prems"(3) by (simp add: deletion_failed_def)
  next
    case False
    then have in_rest: "Call (lookup_request n) r \<in> set ?rest"
      using "1.prems"(2) by simp
    then have "n \<in> set ns"
      using deletions_trace_calls [of "lookup_request n" r cp k "i + 1" ns os] by auto
    then have "n \<noteq> m" using "1.prems"(1) by auto
    then have "delete_property_request n \<notin> set (requests ?here)"
      by (auto simp: deletion_events_def split: sum.splits)
    then show ?thesis using "1.IH" [OF _ in_rest "1.prems"(3)] "1.prems"(1) by simp
  qed
qed simp_all

lemma deletions_trace_not_found:
  "length os = length ns \<Longrightarrow> n \<in> set ns \<Longrightarrow> \<not> list_ex (\<lambda>prop. name prop = n) cp \<Longrightarrow>
     Out (NotFoundInCustom n) \<in> set (deletions_trace cp k i ns os)"
proof (induction ns os arbitrary: i rule: list_induct2')
  case (4 m ns out os)
  then show ?case by (auto simp: deletion_events_def)
qed simp_all

lemma deletions_failed_in_snapshot:
  "n \<in> set (deletions_failed cp ns os) \<Longrightarrow> list_ex (\<lambda>prop. name prop = n) cp \<and> n \<in> set ns"
  by (induction cp ns os rule: deletions_failed.induct)
     (auto simp: deletion_failed_def split: if_splits)

lemma deletions_trace_no_report:
  "Err (FailedDeletions fl) \<notin> set (deletions_trace cp k i ns os)"
  by (induction cp k i ns os rule: deletions_trace.induct)
     (auto simp: deletion_events_def split: sum.splits)

lemma distinct_read_propertiesToDelete: "distinct (read_propertiesToDelete rows)"
  by (simp add: read_propertiesToDelete_eq distinct_first_occurrences)

lemma snapshot_is_custom_of:
  "fst (getAllCustomProperties R (init s)) = custom_of (fst (list_properties R snapshot_request s))"
  by (simp add: getAllCustomProperties_result init_def)

text \<open>
  Claim C4. In a run of \<open>deletePropertiesFromCSV\<close> from a world with no events: when the
  detail fetch for a name is rejected, answers with no data, or answers with an entity
  whose \<^verbatim>\<open>readOnly\<close> is true, then no \<^verbatim>\<open>DELETE\<close> request for that name is handed to axios
  anywhere in the run, and the failure list printed at the end contains the name.
\<close>

theorem protected_never_deleted:
  fixes R :: "('s, 'j) remote"
  assumes "Call (lookup_request n) r
             \<in> set (events (deletePropertiesFromCSV R csv filePath (init s)))"
    and "protected r"
  shows "delete_property_request n
           \<notin> set (requests (events (deletePropertiesFromCSV R csv filePath (init s))))
         \<and> (\<exists>fl. Err (FailedDeletions fl)
                    \<in> set (events (deletePropertiesFromCSV R csv filePath (init s)))
                \<and> n \<in> set fl)"
proof -
  let ?ns = "read_propertiesToDelete (csv filePath)"
  let ?cp = "custom_of (fst (list_properties R snapshot_request s))"
  let ?ev = "events (deletePropertiesFromCSV R csv filePath (init s))"
  obtain os where os: "length os = length ?ns"
    and ev: "?ev =
         Out (StartingPropertyDeletion filePath)
         # snapshot_events (fst (list_properties R snapshot_request s))
         @ Out (FoundToDelete (length ?ns))
         # deletions_trace ?cp (length ?ns) 1 ?ns os
         @ failure_report (deletions_failed ?cp ?ns os)
         @ [Out PropertyDeletionCompleted]"
    using deletePropertiesFromCSV_events [of csv filePath R s] by blast
  let ?tr = "deletions_trace ?cp (length ?ns) 1 ?ns os :: 'j event list"
  have "Call (lookup_request n) r \<in> set ?tr"
    using assms(1) unfolding ev
    by (auto simp: snapshot_events_def failure_report_def split: if_splits sum.splits)
  then have *: "delete_property_request n \<notin> set (requests ?tr)"
       "n \<in> set (deletions_failed ?cp ?ns os)"
    using deletions_trace_protected [OF distinct_read_propertiesToDelete _ assms(2)] by blast+
  have "delete_property_request n \<notin> set (requests ?ev)"
    using *(1) unfolding ev by simp
  moreover have "Err (FailedDeletions (deletions_failed ?cp ?ns os)) \<in> set ?ev"
    using *(2) unfolding ev by (auto simp: failure_report_def)
  ultimately show ?thesis using *(2) by blast
qed

text \<open>
  Claim C5. A target name that is not in the snapshot (the custom properties fetched by
  the one snapshot request, which is the first request of the run and is not repeated)
  gets the line "not found in custom properties"; no detail fetch and no \<^verbatim>\<open>DELETE\<close>
  request is made for it; and no failure list that the run prints contains it.
\<close>

theorem absent_from_snapshot_skipped:
  fixes R :: "('s, 'j) remote"
  assumes "n \<in> set (read_propertiesToDelete (csv filePath))"
    and "\<not> list_ex (\<lambda>prop. name prop = n) (fst (getAllCustomProperties R (init s)))"
  shows "Out (NotFoundInCustom n) \<in> set (events (deletePropertiesFromCSV R csv filePath (init s)))
       \<and> lookup_request n \<notin> set (requests (events (deletePropertiesFromCSV R csv filePath (init s))))
       \<and> delete_property_request n
           \<notin> set (requests (events (deletePropertiesFromCSV R csv filePath (init s))))
       \<and> (\<forall>fl. Err (FailedDeletions fl)
                   \<in> set (events (deletePropertiesFromCSV R csv filePath (init s)))
               \<longrightarrow> n \<notin> set fl)
       \<and> (\<exists>rest. requests (events (deletePropertiesFromCSV R csv filePath (init s)))
                    = snapshot_request # rest
               \<and> snapshot_request \<notin> set rest)"
proof -
  let ?ns = "read_propertiesToDelete (csv filePath)"
  let ?cp = "custom_of (fst (list_properties R snapshot_request s))"
  let ?ev = "events (deletePropertiesFromCSV R csv filePath (init s))"
  obtain os where os: "length os = length ?ns"
    and ev: "?ev =
         Out (StartingPropertyDeletion filePath)
         # snapshot_events (fst (list_properties R snapshot_request s))
         @ Out (FoundToDelete (length ?ns))
         # deletions_trace ?cp (length ?ns) 1 ?ns os
         @ failure_report (deletions_failed ?cp ?ns os)
         @ [Out PropertyDeletionCompleted]"
    using deletePropertiesFromCSV_events [of csv filePath R s] by blast
  let ?tr = "deletions_trace ?cp (length ?ns) 1 ?ns os :: 'j event list"
  have absent: "\<not> list_ex (\<lambda>prop. name prop = n) ?cp"
    using assms(2) by (simp add: snapshot_is_custom_of)
  have "Out (NotFoundInCustom n) \<in> set ?tr"
    using deletions_trace_not_found [OF os assms(1) absent] .
  then have 1: "Out (NotFoundInCustom n) \<in> set ?ev"
    unfolding ev by simp
  have nocall: "req \<noteq> lookup_request n \<and> req \<noteq> delete_property_request n \<and> req \<noteq> snapshot_request"
    if "Call req r \<in> set ?tr" for req r
    using deletions_trace_calls [OF that] absent by auto
  have reqs: "requests ?ev = snapshot_request # requests ?tr"
    unfolding ev by simp
  have 2: "lookup_request n \<notin> set (requests ?ev)" "delete_property_request n \<notin> set (requests ?ev)"
    using nocall unfolding reqs by (auto simp: requests_mem)
  have 3: "snapshot_request \<notin> set (requests ?tr)"
    using nocall by (auto simp: requests_mem)
  have 4: "n \<notin> set fl" if "Err (FailedDeletions fl) \<in> set ?ev" for fl
  proof -
    have "Err (FailedDeletions fl) \<notin> set ?tr"
      by (rule deletions_trace_no_report)
    with that have "fl = deletions_failed ?cp ?ns os"
      unfolding ev
      by (auto simp: snapshot_events_def failure_report_def split: if_splits sum.splits)
    then show ?thesis using deletions_failed_in_snapshot absent by blast
  qed
  show ?thesis using 1 2 3 4 reqs by blast
qed

lemma deletions_trace_empty_snapshot:
  "length os = length ns \<Longrightarrow>
     deletions_trace [] k i ns os =
       concat (map (\<lambda>(j, n). [Out (ProcessingDeletion j k n), Out (NotFoundInCustom n)])
                 (enumerate i ns))
     \<and> deletions_failed [] ns os = []"
proof (induction ns os arbitrary: i rule: list_induct2')
  case (4 n ns out os)
  then show ?case
    by (simp add: deletion_events_def deletion_failed_def)
qed simp_all

lemma requests_skipped:
  "requests (concat (map (\<lambda>(j, n). [Out (ProcessingDeletion j k n), Out (NotFoundInCustom n)]) xs))
     = []"
  by (induction xs) auto

text \<open>
  Claim C10. When the snapshot request is rejected, \<open>getAllCustomProperties\<close> returns the
  empty list, and the run of \<open>deletePropertiesFromCSV\<close> consists of the snapshot request,
  its error line, and for every target name the two lines "processing" and "not found":
  no detail fetch, no \<^verbatim>\<open>DELETE\<close> request, no failure list, and the closing line of a
  completed run.
\<close>

theorem failed_snapshot_deletes_nothing:
  fixes R :: "('s, 'j) remote"
  assumes "fst (list_properties R snapshot_request s) = Inl e"
  shows "fst (getAllCustomProperties R (init s)) = []
       \<and> events (deletePropertiesFromCSV R csv filePath (init s)) =
           [Out (StartingPropertyDeletion filePath), Out FetchingCustom,
            Call snapshot_request (Inl e), Err (FetchCustomError e),
            Out (FoundToDelete (length (read_propertiesToDelete (csv filePath))))]
           @ concat (map (\<lambda>(j, n). [Out (ProcessingDeletion j (length (read_propertiesToDelete (csv filePath))) n),
                                      Out (NotFoundInCustom n)])
                      (enumerate 1 (read_propertiesToDelete (csv filePath))))
           @ [Out PropertyDeletionCompleted]
       \<and> requests (events (deletePropertiesFromCSV R csv filePath (init s))) = [snapshot_request]"
proof -
  let ?ns = "read_propertiesToDelete (csv filePath)"
  let ?ev = "events (deletePropertiesFromCSV R csv filePath (init s))"
  have cp: "custom_of (fst (list_properties R snapshot_request s)) = []"
    using assms by (simp add: custom_of_def)
  obtain os where os: "length os = length ?ns"
    and ev: "?ev =
         Out (StartingPropertyDeletion filePath)
         # snapshot_events (fst (list_properties R snapshot_request s))
         @ Out (FoundToDelete (length ?ns))
         # deletions_trace [] (length ?ns) 1 ?ns os
         @ failure_report (deletions_failed [] ?ns os)
         @ [Out PropertyDeletionCompleted]"
    using deletePropertiesFromCSV_events [of csv filePath R s] unfolding cp by blast
  let ?skipped = "concat (map (\<lambda>(j, n). [Out (ProcessingDeletion j (length ?ns) n), Out (NotFoundInCustom n)])
                      (enumerate 1 ?ns)) :: 'j event list"
  have tr: "deletions_trace [] (length ?ns) 1 ?ns os = ?skipped"
    and fl: "deletions_failed [] ?ns os = []"
    using deletions_trace_empty_snapshot [OF os, of "length ?ns" 1] by blast+
  have 1: "fst (getAllCustomProperties R (init s)) = []"
    using cp by (simp add: snapshot_is_custom_of)
  have 2: "?ev =
           [Out (StartingPropertyDeletion filePath), Out FetchingCustom,
            Call snapshot_request (Inl e), Err (FetchCustomError e),
            Out (FoundToDelete (length ?ns))]
           @ ?skipped @ [Out PropertyDeletionCompleted]"
    unfolding ev tr fl using assms by (simp add: snapshot_events_def failure_report_def)
  have 3: "requests ?ev = [snapshot_request]"
    unfolding 2 by (simp add: requests_skipped)
  show ?thesis using 1 2 3 by blast
qed

lemmas batch_defs =
  deletePropertiesFromCSV_def delete_body_def getAllCustomProperties_def getPropertyDetails_def
  deleteProperty_def read_propertiesToDelete_def set_add_def axios_def console_log_def
  console_error_def setTimeout_def init_def mem_remote_def mem_mutate_def example_row_def
  example_property_def crm_store_def batch_csv_def lookup_request_def delete_property_request_def
  snapshot_request_def Let_def

lemma batch_run:
  "events (deletePropertiesFromCSV (mem_remote :: (mem, unit) remote) batch_csv ''export.csv''
             (init crm_store)) =
     [Out (StartingPropertyDeletion ''export.csv''), Out FetchingCustom,
      Call snapshot_request
        (Inr (PropertiesData [example_property ''score'' False, example_property ''owner'' True])),
      Out (FoundCustom 2), Out (FoundToDelete 3),
      Out (ProcessingDeletion 1 3 ''score''),
      Call (lookup_request ''score'') (Inr (PropertyData (Some (example_property ''score'' False)))),
      Call (delete_property_request ''score'') (Inr NoData),
      Out (DeletedProperty ''score''), Sleep 1000,
      Out (ProcessingDeletion 2 3 ''owner''),
      Call (lookup_request ''owner'') (Inr (PropertyData (Some (example_property ''owner'' True)))),
      Out (SkippingProperty ''owner''), Sleep 1000,
      Out (ProcessingDeletion 3 3 ''ghost''), Out (NotFoundInCustom ''ghost''),
      Err (FailedDeletions [''owner'']),
      Out PropertyDeletionCompleted]"
  by (simp add: batch_defs)

theorem protected_never_deleted_witness:
  "Call (lookup_request ''owner'') (Inr (PropertyData (Some (example_property ''owner'' True))))
     \<in> set (events (deletePropertiesFromCSV (mem_remote :: (mem, unit) remote) batch_csv
                ''export.csv'' (init crm_store)))
   \<and> protected (Inr (PropertyData (Some (example_property ''owner'' True))))
   \<and> delete_property_request ''owner''
       \<notin> set (requests (events (deletePropertiesFromCSV (mem_remote :: (mem, unit) remote)
                   batch_csv ''export.csv'' (init crm_store))))
   \<and> Err (FailedDeletions [''owner''])
       \<in> set (events (deletePropertiesFromCSV (mem_remote :: (mem, unit) remote) batch_csv
                  ''export.csv'' (init crm_store)))"
proof -
  let ?ev = "events (deletePropertiesFromCSV (mem_remote :: (mem, unit) remote) batch_csv
               ''export.csv'' (init crm_store))"
  have c: "Call (lookup_request ''owner'') (Inr (PropertyData (Some (example_property ''owner'' True))))
             \<in> set ?ev"
    by (simp add: batch_run)
  have p: "protected (Inr (PropertyData (Some (example_property ''owner'' True))))"
    by (simp add: protected_def example_property_def)
  have f: "Err (FailedDeletions [''owner'']) \<in> set ?ev"
    by (simp add: batch_run)
  from protected_never_deleted [OF c p] c p f show ?thesis by blast
qed

theorem absent_from_snapshot_skipped_witness:
  "''ghost'' \<in> set (read_propertiesToDelete (batch_csv ''export.csv''))
   \<and> \<not> list_ex (\<lambda>prop. name prop = ''ghost'')
          (fst (getAllCustomProperties (mem_remote :: (mem, unit) remote) (init crm_store)))
   \<and> Out (NotFoundInCustom ''ghost'')
       \<in> set (events (deletePropertiesFromCSV (mem_remote :: (mem, unit) remote) batch_csv
                  ''export.csv'' (init crm_store)))
   \<and> lookup_request ''ghost''
       \<notin> set (requests (events (deletePropertiesFromCSV (mem_remote :: (mem, unit) remote)
                   batch_csv ''export.csv'' (init crm_store))))
   \<and> delete_property_request ''ghost''
       \<notin> set (requests (events (deletePropertiesFromCSV (mem_remote :: (mem, unit) remote)
                   batch_csv ''export.csv'' (init crm_store))))
   \<and> Err (FailedDeletions [''owner''])
       \<in> set (events (deletePropertiesFromCSV (mem_remote :: (mem, unit) remote) batch_csv
                  ''export.csv'' (init crm_store)))
   \<and> ''ghost'' \<notin> set [''owner'']"
proof -
  let ?ev = "events (deletePropertiesFromCSV (mem_remote :: (mem, unit) remote) batch_csv
               ''export.csv'' (init crm_store))"
  have t: "''ghost'' \<in> set (read_propertiesToDelete (batch_csv ''export.csv''))"
    by (simp add: batch_defs)
  have a: "\<not> list_ex (\<lambda>prop. name prop = ''ghost'')
          (fst (getAllCustomProperties (mem_remote :: (mem, unit) remote) (init crm_store)))"
    by (simp add: batch_defs)
  have f: "Err (FailedDeletions [''owner'']) \<in> set ?ev"
    by (simp add: batch_run)
  from absent_from_snapshot_skipped
         [where n = "''ghost''" and csv = batch_csv and filePath = "''export.csv''"
            and R = "mem_remote :: (mem, unit) remote" and s = crm_store]
       t a f
  show ?thesis by blast
qed

theorem failed_snapshot_deletes_nothing_witness:
  "fst (list_properties (offline_remote :: (mem, unit) remote) snapshot_request crm_store)
     = Inl (AxiosNetworkError ''timeout'')
   \<and> fst (getAllCustomProperties (offline_remote :: (mem, unit) remote) (init crm_store)) = []
   \<and> requests (events (deletePropertiesFromCSV (offline_remote :: (mem, unit) remote) batch_csv
                         ''export.csv'' (init crm_store))) = [snapshot_request]
   \<and> events (deletePropertiesFromCSV (offline_remote :: (mem, unit) remote) batch_csv
               ''export.csv'' (init crm_store)) =
       [Out (StartingPropertyDeletion ''export.csv''), Out FetchingCustom,
        Call snapshot_request (Inl (AxiosNetworkError ''timeout'')),
        Err (FetchCustomError (AxiosNetworkError ''timeout'')),
        Out (FoundToDelete 3),
        Out (ProcessingDeletion 1 3 ''score''), Out (NotFoundInCustom ''score''),
        Out (ProcessingDeletion 2 3 ''owner''), Out (NotFoundInCustom ''owner''),
        Out (ProcessingDeletion 3 3 ''ghost''), Out (NotFoundInCustom ''ghost''),
        Out PropertyDeletionCompleted]"
proof -
  have h: "fst (list_properties (offline_remote :: (mem, unit) remote) snapshot_request crm_store)
     = Inl (AxiosNetworkError ''timeout'')"
    by (simp add: offline_remote_def)
  have ns: "read_propertiesToDelete (batch_csv ''export.csv'') = [''score'', ''owner'', ''ghost'']"
    by (simp add: batch_defs)
  from failed_snapshot_deletes_nothing
         [where R = "offline_remote :: (mem, unit) remote" and s = crm_store
            and e = "AxiosNetworkError ''timeout''" and csv = batch_csv
            and filePath = "''export.csv''"]
       h
  show ?thesis unfolding ns by simp
qed

section \<open>Reconciler\<close>

lemma events_console [simp]:
  "events (console_log m w) = events w @ [Out m]"
  "events (console_error m w) = events w @ [Err m]"
  "events (setTimeout ms w) = events w @ [Sleep ms]"
  by (simp_all add: console_log_def console_error_def setTimeout_def)

lemma store_console [simp]:
  "store (console_log m w) = store w"
  "store (console_error m w) = store w"
  "store (setTimeout ms w) = store w"
  by (simp_all add: console_log_def console_error_def setTimeout_def)

lemma createGroupIfNotExists_events:
  "\<exists>rg rc. events (createGroupIfNotExists R g w) = events w @ group_events g rg rc"
proof (cases "list_groups R groups_request (store w)")
  case (Pair r s1)
  show ?thesis
  proof (cases r)
    case (Inl e)
    with Pair show ?thesis
      by (intro exI [of _ "Inl e"])
         (simp add: createGroupIfNotExists_def axios_def group_events_def groups_request_def
           console_error_def)
  next
    case (Inr groups)
    show ?thesis
    proof (cases "list_ex (\<lambda>group. group_name group = g) groups")
      case True
      with Pair Inr show ?thesis
        by (intro exI [of _ "Inr (GroupsData groups)"])
           (simp add: createGroupIfNotExists_def axios_def group_events_def groups_request_def)
    next
      case False
      obtain r2 s2 where r2: "mutate R (create_group_request g) s1 = (r2, s2)"
        by fastforce
      with Pair Inr False show ?thesis
        by (intro exI [of _ "Inr (GroupsData groups)"]
                  exI [of _ "case r2 of Inl e \<Rightarrow> Inl e | Inr u \<Rightarrow> Inr NoData"])
           (simp add: createGroupIfNotExists_def axios_def group_events_def groups_request_def
             create_group_request_def console_error_def console_log_def split: sum.splits)
    qed
  qed
qed

lemma found_tagged [simp]:
  "found (case r of Inl e \<Rightarrow> Inl e | Inr d \<Rightarrow> Inr (PropertyData d)) = answered r"
  by (simp add: found_def answered_def split: sum.splits option.splits)

lemma createOrUpdateProperty_events:
  "\<exists>rl rm. events (snd (createOrUpdateProperty R parse prop w))
             = events w @ property_events parse prop rl rm
     \<and> found rl = (fst (getPropertyDetails R (name prop) w) \<noteq> None)
     \<and> found rl = answered (fst (fetch_property R (lookup_request (name prop)) (store w)))"
proof -
  obtain r where r: "getPropertyDetails R (name prop) w =
         (case r of Inl e \<Rightarrow> None | Inr d \<Rightarrow> d,
          \<lparr>store = snd (fetch_property R (lookup_request (name prop)) (store w)),
           events = events w @ [Call (lookup_request (name prop))
                                  (case r of Inl e \<Rightarrow> Inl e | Inr d \<Rightarrow> Inr (PropertyData d))]\<rparr>)"
    and r': "r = fst (fetch_property R (lookup_request (name prop)) (store w))"
    using getPropertyDetails_events by blast
  let ?rl = "case r of Inl e \<Rightarrow> Inl e | Inr d \<Rightarrow> Inr (PropertyData d)"
  let ?s1 = "snd (fetch_property R (lookup_request (name prop)) (store w))"
  have f: "found ?rl = (fst (getPropertyDetails R (name prop) w) \<noteq> None)"
    using r by (simp add: answered_def split: sum.splits option.splits)
  have f': "found ?rl = answered (fst (fetch_property R (lookup_request (name prop)) (store w)))"
    using r' by simp
  show ?thesis
  proof (cases "property_data parse prop")
    case (Inl e)
    with r f f' show ?thesis
      by (intro exI [where x = "?rl"])
         (simp add: createOrUpdateProperty_def property_events_def Let_def)
  next
    case (Inr d)
    obtain r2 s2 where r2:
      "mutate R (if found ?rl then update_request (name prop) d else create_request d) ?s1 = (r2, s2)"
      by fastforce
    have "events (snd (createOrUpdateProperty R parse prop w))
             = events w @ property_events parse prop ?rl
                            (case r2 of Inl e \<Rightarrow> Inl e | Inr u \<Rightarrow> Inr NoData)"
      using r f Inr r2
      by (cases "fst (getPropertyDetails R (name prop) w) = None"; cases r2)
         (simp_all add: createOrUpdateProperty_def property_events_def
           axios_def create_request_def update_request_def Let_def)
    with f f' show ?thesis by blast
  qed
qed

lemma import_loop_events:
  "\<exists>outs. length outs = length props
      \<and> events (import_loop R parse k i props w) = events w @ import_trace parse k i props outs"
proof (induction props arbitrary: i w)
  case Nil
  then show ?case by simp
next
  case (Cons p props)
  let ?w0 = "console_log (ProcessingProperty (i + 1) k (name p)) w"
  let ?w1 = "createGroupIfNotExists R (groupName p) ?w0"
  let ?w2 = "snd (createOrUpdateProperty R parse p ?w1)"
  obtain rg rc where g: "events ?w1 = events ?w0 @ group_events (groupName p) rg rc"
    using createGroupIfNotExists_events by blast
  obtain rl rm where p: "events ?w2 = events ?w1 @ property_events parse p rl rm"
    using createOrUpdateProperty_events by blast
  obtain outs where outs: "length outs = length props"
      "events (import_loop R parse k (i + 1) props ?w2)
         = events ?w2 @ import_trace parse k (i + 1) props outs"
    using Cons.IH by blast
  show ?case
    using outs p g
    by (intro exI [where x = "\<lparr>listed = rg, group_created = rc, looked_up = rl, mutated = rm\<rparr> # outs"])
       (simp add: row_events_def)
qed

lemma importProperties_events:
  "\<exists>outs. length outs = length (read_properties (csv filePath))
      \<and> events (importProperties R parse csv filePath w) =
          events w
          @ [Out (StartingImport filePath),
             Out (FoundToImport (length (read_properties (csv filePath))))]
          @ import_trace parse (length (read_properties (csv filePath))) 0
              (read_properties (csv filePath)) outs
          @ [Out ImportCompleted]"
proof -
  let ?props = "read_properties (csv filePath)"
  let ?w0 = "console_log (FoundToImport (length ?props)) (console_log (StartingImport filePath) w)"
  obtain outs where outs: "length outs = length ?props"
      "events (import_loop R parse (length ?props) 0 ?props ?w0)
         = events ?w0 @ import_trace parse (length ?props) 0 ?props outs"
    using import_loop_events by blast
  show ?thesis
    using outs
    by (intro exI [where x = outs]) (simp add: importProperties_def Let_def)
qed

lemma property_data_malformed:
  "isl (property_data parse prop) \<longleftrightarrow> malformed parse prop"
  by (auto simp: property_data_def malformed_def split: option.splits sum.splits)

lemma property_data_Inl:
  "options prop = Some s \<Longrightarrow> s \<noteq> [] \<Longrightarrow> parse s = Inl m \<Longrightarrow>
     property_data parse prop = Inl (SyntaxError m)"
  by (simp add: property_data_def)

lemma property_data_Inr:
  "property_data parse prop = Inr d \<Longrightarrow>
     d = \<lparr>data_name = name prop, data_label = label prop, data_description = description prop,
          data_groupName = groupName prop, data_type = type prop,
          data_fieldType = fieldType prop, data_formField = (fieldType prop = ''text''),
          data_options =
            (case options prop of
               None \<Rightarrow> None
             | Some s \<Rightarrow> if s = [] then None
                         else (case parse s of Inl m \<Rightarrow> None | Inr v \<Rightarrow> Some v))\<rparr>"
  by (auto simp: property_data_def split: option.splits sum.splits if_splits)

lemma requests_property_events:
  "requests (property_events parse prop rl rm) =
     lookup_request (name prop)
     # (case property_data parse prop of
          Inl e \<Rightarrow> []
        | Inr d \<Rightarrow> [if found rl then update_request (name prop) d else create_request d])"
  by (simp add: property_events_def split: sum.splits)

text \<open>
  Claim C2. \<open>createOrUpdateProperty\<close> hands to axios the lookup and then, unless building
  the payload threw, one request: a \<^verbatim>\<open>POST\<close> to the collection URL exactly when
  \<open>getPropertyDetails\<close> returned null, and otherwise a \<^verbatim>\<open>PUT\<close> to the URL of the name. The
  data of the request is in both cases the same payload, a function of the property and of
  \<^verbatim>\<open>JSON.parse\<close> alone: the six fields copied, \<^verbatim>\<open>formField\<close> true exactly for the field
  type \<^verbatim>\<open>text\<close>, and the options deserialized (undefined when absent or empty).
\<close>

theorem create_path_iff_lookup_absent:
  "requests (events (snd (createOrUpdateProperty R parse p w))) =
     requests (events w)
     @ lookup_request (name p)
     # (case property_data parse p of
          Inl e \<Rightarrow> []
        | Inr d \<Rightarrow>
            [if fst (getPropertyDetails R (name p) w) = None
             then \<lparr>method = POST, url = BASE_URL, data = Some (PropertyBody d)\<rparr>
             else \<lparr>method = PUT, url = named_url (name p), data = Some (PropertyBody d)\<rparr>])
   \<and> (\<forall>d. property_data parse p = Inr d \<longrightarrow>
          d = \<lparr>data_name = name p, data_label = label p,
               data_description = description p, data_groupName = groupName p,
               data_type = type p, data_fieldType = fieldType p,
               data_formField = (fieldType p = ''text''),
               data_options =
                 (case options p of
                    None \<Rightarrow> None
                  | Some s \<Rightarrow> if s = [] then None
                              else (case parse s of Inl m \<Rightarrow> None | Inr v \<Rightarrow> Some v))\<rparr>)"
proof -
  obtain rl rm where ev: "events (snd (createOrUpdateProperty R parse p w))
             = events w @ property_events parse p rl rm"
    and rl: "found rl = (fst (getPropertyDetails R (name p) w) \<noteq> None)"
    using createOrUpdateProperty_events by blast
  have "requests (events (snd (createOrUpdateProperty R parse p w))) =
     requests (events w)
     @ lookup_request (name p)
     # (case property_data parse p of
          Inl e \<Rightarrow> []
        | Inr d \<Rightarrow>
            [if fst (getPropertyDetails R (name p) w) = None
             then \<lparr>method = POST, url = BASE_URL, data = Some (PropertyBody d)\<rparr>
             else \<lparr>method = PUT, url = named_url (name p), data = Some (PropertyBody d)\<rparr>])"
    unfolding ev using rl
    by (simp add: requests_property_events create_request_def update_request_def
        split: sum.splits)
  then show ?thesis using property_data_Inr by blast
qed



lemma requests_group_events:
  "requests (group_events g rg rc) =
     groups_request
     # (if fst (flags_of g \<lparr>listed = rg, group_created = rc, looked_up = rl, mutated = rm\<rparr>)
        then [create_group_request g] else [])"
  by (simp add: group_events_def flags_of_def split: sum.splits response.splits)

lemma requests_row_events:
  "requests (row_events parse k i p out) = row_requests parse p (flags_of (groupName p) out)"
proof -
  have "requests (group_events (groupName p) (listed out) (group_created out)) =
     groups_request
     # (if fst (flags_of (groupName p) out) then [create_group_request (groupName p)] else [])"
    using requests_group_events
            [of "groupName p" "listed out" "group_created out" "looked_up out" "mutated out"]
    by (simp add: flags_of_def)
  then show ?thesis
    by (auto simp: row_events_def row_requests_def requests_property_events flags_of_def
        split: sum.splits)
qed

lemma requests_import_trace:
  "length outs = length props \<Longrightarrow>
     requests (import_trace parse k i props outs) =
       concat (map2 (row_requests parse) props (map2 (\<lambda>p. flags_of (groupName p)) props outs))"
proof (induction props outs arbitrary: i rule: list_induct2')
  case (4 p props out outs)
  then show ?case by (simp add: requests_row_events)
qed simp_all

lemma named_url_neq_GROUPS [simp]: "named_url n \<noteq> GROUPS_URL"
  by (simp add: named_url_def BASE_URL_def GROUPS_URL_def)

lemma lookups_row_requests:
  "filter is_lookup (row_requests parse p flags) = [lookup_request (name p)]"
  by (simp add: row_requests_def is_lookup_def groups_request_def create_group_request_def
      lookup_request_def update_request_def create_request_def split: sum.splits)

lemma mutations_row_requests:
  "length (filter is_create_or_update (row_requests parse p flags)) =
     (if malformed parse p then 0 else 1)"
  using property_data_malformed [of parse p]
  by (auto simp: row_requests_def is_create_or_update_def groups_request_def
      create_group_request_def lookup_request_def update_request_def create_request_def
      split: sum.splits)

lemma lookups_blocks:
  "length flags = length props \<Longrightarrow>
     filter is_lookup (concat (map2 (row_requests parse) props flags)) =
       map (\<lambda>p. lookup_request (name p)) props"
proof (induction props flags rule: list_induct2')
  case (4 p props f flags)
  then show ?case by (simp add: lookups_row_requests)
qed simp_all

lemma mutations_blocks:
  "length flags = length props \<Longrightarrow>
     length (filter is_create_or_update (concat (map2 (row_requests parse) props flags))) =
       length (filter (\<lambda>p. \<not> malformed parse p) props)"
proof (induction props flags rule: list_induct2')
  case (4 p props f flags)
  then show ?case by (simp add: mutations_row_requests)
qed simp_all

lemma importProperties_requests:
  "\<exists>flags. length flags = length (read_properties (csv filePath))
     \<and> requests (events (importProperties R parse csv filePath w)) =
         requests (events w)
         @ concat (map2 (row_requests parse) (read_properties (csv filePath)) flags)"
proof -
  let ?props = "read_properties (csv filePath)"
  obtain outs where outs: "length outs = length ?props"
    and ev: "events (importProperties R parse csv filePath w) =
          events w
          @ [Out (StartingImport filePath), Out (FoundToImport (length ?props))]
          @ import_trace parse (length ?props) 0 ?props outs
          @ [Out ImportCompleted]"
    using importProperties_events by blast
  show ?thesis
    by (intro exI [where x = "map2 (\<lambda>p. flags_of (groupName p)) ?props outs"])
       (simp add: ev outs requests_import_trace)
qed

lemma importProperties_requests_init:
  "\<exists>flags. length flags = length (read_properties (csv filePath))
     \<and> requests (events (importProperties R parse csv filePath (init s))) =
         concat (map2 (row_requests parse) (read_properties (csv filePath)) flags)"
  using importProperties_requests [of csv filePath R parse "init s"] by (simp add: init_def)

lemma import_loop_append:
  "import_loop R parse k i (pre @ post) w =
     import_loop R parse k (i + length pre) post (import_loop R parse k i pre w)"
  by (induction pre arbitrary: i w) simp_all

text \<open>
  Claim C1, as amended. The requests of a run of \<open>importProperties\<close> from a world with no
  events are, row after row in input order over the rows that are not built-in, one block
  per row: the list of groups, the creation of the group when the list lacks it, the
  lookup by name, and then one create-or-update request unless the options of the row are
  malformed, in which case none. So the group check of a row is complete before its
  create-or-update request, and the create-or-update requests of the run are as many as
  the rows with well-formed options. Rows whose \<^verbatim>\<open>Hubspot defined\<close> is \<^verbatim>\<open>'true'\<close> change
  nothing: the run is the run on the other rows.
\<close>

theorem import_requests_row_by_row:
  "(\<exists>flags. length flags = length (read_properties (csv filePath))
      \<and> requests (events (importProperties R parse csv filePath (init s))) =
          concat (map2 (row_requests parse) (read_properties (csv filePath)) flags))
   \<and> length (filter is_create_or_update
               (requests (events (importProperties R parse csv filePath (init s))))) =
       length (filter (\<lambda>p. \<not> malformed parse p) (read_properties (csv filePath)))
   \<and> read_properties (csv filePath) =
       map row_property (filter (\<lambda>r. Hubspot_defined r \<noteq> ''true'') (csv filePath))
   \<and> importProperties R parse csv filePath w =
       importProperties R parse (\<lambda>p. filter (\<lambda>r. Hubspot_defined r \<noteq> ''true'') (csv p))
         filePath w"
proof -
  let ?props = "read_properties (csv filePath)"
  obtain flags where flags: "length flags = length ?props"
    and reqs': "requests (events (importProperties R parse csv filePath (init s))) =
         concat (map2 (row_requests parse) ?props flags)"
    using importProperties_requests_init
            [where csv = csv and filePath = filePath and R = R and parse = parse and s = s]
    by blast
  have 1: "\<exists>flags. length flags = length ?props
      \<and> requests (events (importProperties R parse csv filePath (init s))) =
          concat (map2 (row_requests parse) ?props flags)"
    using flags reqs' by blast
  have 2: "length (filter is_create_or_update
               (requests (events (importProperties R parse csv filePath (init s))))) =
       length (filter (\<lambda>p. \<not> malformed parse p) ?props)"
    unfolding reqs' using mutations_blocks [OF flags] .
  have 3: "importProperties R parse csv filePath w =
       importProperties R parse (\<lambda>p. filter (\<lambda>r. Hubspot_defined r \<noteq> ''true'') (csv p))
         filePath w"
    by (simp add: importProperties_def read_properties_def)
  show ?thesis using 1 2 3 by (simp add: read_properties_def)
qed

text \<open>
  Claim C6, as amended. For a property whose options are malformed,
  \<open>createOrUpdateProperty\<close> returns false; what it does is the lookup request and one line
  on standard error with the message of the \<^verbatim>\<open>SyntaxError\<close>: no create-or-update request
  is sent. The loop goes on after such a row, wherever it stands in the input, with the
  rows that follow it; and in every run, whatever the outcomes of the requests, each row
  that is not built-in has its lookup made, in input order.
\<close>

theorem malformed_options_fail_one_row:
  assumes "options p = Some x" and "x \<noteq> []" and "parse x = Inl m"
  shows "fst (createOrUpdateProperty R parse p w) = False
       \<and> (\<exists>r. events (snd (createOrUpdateProperty R parse p w)) =
                events w @ [Call (lookup_request (name p)) r, Err (PropertyError (name p) m)])
       \<and> import_loop R parse k i (pre @ p # post) w =
           import_loop R parse k (i + length pre + 1) post
             (snd (createOrUpdateProperty R parse p
                (createGroupIfNotExists R (groupName p)
                   (console_log (ProcessingProperty (i + length pre + 1) k (name p))
                      (import_loop R parse k i pre w)))))
       \<and> filter is_lookup (requests (events (importProperties R parse csv filePath (init s)))) =
           map (\<lambda>p. lookup_request (name p)) (read_properties (csv filePath))"
proof -
  have pd: "property_data parse p = Inl (SyntaxError m)"
    using assms by (rule property_data_Inl)
  have 1: "fst (createOrUpdateProperty R parse p w) = False"
    by (simp add: createOrUpdateProperty_def pd Let_def split: prod.splits)
  obtain rl rm where "events (snd (createOrUpdateProperty R parse p w))
             = events w @ property_events parse p rl rm"
    using createOrUpdateProperty_events by blast
  then have 2: "\<exists>r. events (snd (createOrUpdateProperty R parse p w)) =
                events w @ [Call (lookup_request (name p)) r, Err (PropertyError (name p) m)]"
    by (auto simp: property_events_def pd)
  have 3: "import_loop R parse k i (pre @ p # post) w =
           import_loop R parse k (i + length pre + 1) post
             (snd (createOrUpdateProperty R parse p
                (createGroupIfNotExists R (groupName p)
                   (console_log (ProcessingProperty (i + length pre + 1) k (name p))
                      (import_loop R parse k i pre w)))))"
    by (simp add: import_loop_append)
  obtain flags where flags: "length flags = length (read_properties (csv filePath))"
    and reqs: "requests (events (importProperties R parse csv filePath (init s))) =
         concat (map2 (row_requests parse) (read_properties (csv filePath)) flags)"
    using importProperties_requests_init
            [where csv = csv and filePath = filePath and R = R and parse = parse and s = s]
    by blast
  have 4: "filter is_lookup (requests (events (importProperties R parse csv filePath (init s)))) =
           map (\<lambda>p. lookup_request (name p)) (read_properties (csv filePath))"
    unfolding reqs using lookups_blocks [OF flags] .
  show ?thesis using 1 2 3 4 by blast
qed

lemmas import_defs =
  importProperties_def createOrUpdateProperty_def createGroupIfNotExists_def
  getPropertyDetails_def property_data_def read_properties_def row_property_def
  axios_def console_log_def console_error_def init_def mem_remote_def mem_mutate_def
  example_row_def example_property_def crm_store_def import_csv_def example_parse_def
  example_payload_def stored_def
  lookup_request_def groups_request_def create_group_request_def create_request_def
  update_request_def Let_def

lemma import_run:
  "requests (events (importProperties mem_remote example_parse import_csv ''export.csv''
                       (init crm_store))) =
     [groups_request, lookup_request ''score'',
      update_request ''score'' (example_payload ''score'' ''leadinfo'' (Some [1])),
      groups_request, lookup_request ''tier'',
      groups_request, create_group_request ''sales'', lookup_request ''stage'',
      create_request (example_payload ''stage'' ''sales'' None)]"
  by (simp add: import_defs)

theorem import_requests_row_by_row_witness:
  "length (filter is_create_or_update
            (requests (events (importProperties mem_remote example_parse import_csv
                                 ''export.csv'' (init crm_store))))) = 2
   \<and> requests (events (importProperties mem_remote example_parse import_csv ''export.csv''
                         (init crm_store))) =
     [groups_request, lookup_request ''score'',
      update_request ''score'' (example_payload ''score'' ''leadinfo'' (Some [1])),
      groups_request, lookup_request ''tier'',
      groups_request, create_group_request ''sales'', lookup_request ''stage'',
      create_request (example_payload ''stage'' ''sales'' None)]"
proof -
  have "length (filter (\<lambda>p. \<not> malformed example_parse p)
                  (read_properties (import_csv ''export.csv''))) = 2"
    by (simp add: malformed_def import_defs)
  with import_requests_row_by_row
         [where R = "mem_remote :: (mem, nat list) remote" and parse = example_parse
            and csv = import_csv and filePath = "''export.csv''" and s = crm_store]
       import_run
  show ?thesis by simp
qed

text \<open>
  Claim C1 as stated fails: a row that is not built-in and whose options are malformed
  gets no create-or-update request.
\<close>

theorem one_request_per_row_counterexample:
  "map Hubspot_defined (malformed_csv ''export.csv'') = [''false'']
   \<and> filter is_create_or_update
       (requests (events (importProperties mem_remote example_parse malformed_csv
                            ''export.csv'' (init crm_store)))) = []
   \<and> requests (events (importProperties mem_remote example_parse malformed_csv
                         ''export.csv'' (init crm_store))) =
       [groups_request, lookup_request ''tier'']"
  by (simp add: import_defs malformed_csv_def is_create_or_update_def)

theorem create_path_iff_lookup_absent_witness:
  "property_data example_parse (row_property (example_row ''score'' ''leadinfo'' ''[1]'' ''false''))
     = Inr (example_payload ''score'' ''leadinfo'' (Some [1]))
   \<and> fst (getPropertyDetails (mem_remote :: (mem, nat list) remote) ''score'' (init crm_store))
       = Some (example_property ''score'' False)
   \<and> requests (events (snd (createOrUpdateProperty mem_remote example_parse
        (row_property (example_row ''score'' ''leadinfo'' ''[1]'' ''false'')) (init crm_store)))) =
       [lookup_request ''score'',
        \<lparr>method = PUT, url = named_url ''score'',
         data = Some (PropertyBody (example_payload ''score'' ''leadinfo'' (Some [1])))\<rparr>]
   \<and> fst (getPropertyDetails (mem_remote :: (mem, nat list) remote) ''stage'' (init crm_store))
       = None
   \<and> requests (events (snd (createOrUpdateProperty mem_remote example_parse
        (row_property (example_row ''stage'' ''sales'' [] ''false'')) (init crm_store)))) =
       [lookup_request ''stage'',
        \<lparr>method = POST, url = BASE_URL,
         data = Some (PropertyBody (example_payload ''stage'' ''sales'' None))\<rparr>]"
proof -
  have a: "property_data example_parse
             (row_property (example_row ''score'' ''leadinfo'' ''[1]'' ''false''))
           = Inr (example_payload ''score'' ''leadinfo'' (Some [1]))"
    and b: "property_data example_parse (row_property (example_row ''stage'' ''sales'' [] ''false''))
           = Inr (example_payload ''stage'' ''sales'' None)"
    and c: "fst (getPropertyDetails (mem_remote :: (mem, nat list) remote) ''score'' (init crm_store))
       = Some (example_property ''score'' False)"
    and d: "fst (getPropertyDetails (mem_remote :: (mem, nat list) remote) ''stage'' (init crm_store))
       = None"
    by (simp_all add: import_defs)
  have n: "name (row_property (example_row ''score'' ''leadinfo'' ''[1]'' ''false'')) = ''score''"
      "name (row_property (example_row ''stage'' ''sales'' [] ''false'')) = ''stage''"
    by (simp_all add: row_property_def example_row_def)
  from create_path_iff_lookup_absent
         [where R = "mem_remote :: (mem, nat list) remote" and parse = example_parse
            and p = "row_property (example_row ''score'' ''leadinfo'' ''[1]'' ''false'')"
            and w = "init crm_store"]
       create_path_iff_lookup_absent
         [where R = "mem_remote :: (mem, nat list) remote" and parse = example_parse
            and p = "row_property (example_row ''stage'' ''sales'' [] ''false'')"
            and w = "init crm_store"]
       a b c d n
  show ?thesis by (simp add: init_def)
qed



text \<open>
  Claim C6 as stated fails in one point: for a row with malformed options a request is
  sent, the lookup by name, before the options are deserialized.
\<close>

theorem malformed_row_sends_lookup_counterexample:
  "options (row_property (example_row ''tier'' ''leadinfo'' ''{oops'' ''false'')) = Some ''{oops''
   \<and> example_parse ''{oops'' = Inl ''Unexpected token in JSON''
   \<and> requests (events (snd (createOrUpdateProperty mem_remote example_parse
        (row_property (example_row ''tier'' ''leadinfo'' ''{oops'' ''false'')) (init crm_store)))) =
       [lookup_request ''tier'']"
  by (simp add: import_defs)

theorem malformed_options_fail_one_row_witness:
  "options (row_property (example_row ''tier'' ''leadinfo'' ''{oops'' ''false'')) = Some ''{oops''
   \<and> ''{oops'' \<noteq> []
   \<and> example_parse ''{oops'' = Inl ''Unexpected token in JSON''
   \<and> fst (createOrUpdateProperty (mem_remote :: (mem, nat list) remote) example_parse
        (row_property (example_row ''tier'' ''leadinfo'' ''{oops'' ''false'')) (init crm_store))
       = False
   \<and> events (snd (createOrUpdateProperty mem_remote example_parse
        (row_property (example_row ''tier'' ''leadinfo'' ''{oops'' ''false'')) (init crm_store))) =
       [Call (lookup_request ''tier'') (Inl not_found),
        Err (PropertyError ''tier'' ''Unexpected token in JSON'')]
   \<and> filter is_lookup
       (requests (events (importProperties mem_remote example_parse import_csv ''export.csv''
                            (init crm_store)))) =
       [lookup_request ''score'', lookup_request ''tier'', lookup_request ''stage'']"
proof -
  have a: "options (row_property (example_row ''tier'' ''leadinfo'' ''{oops'' ''false''))
             = Some ''{oops''"
    and b: "''{oops'' \<noteq> []"
    and c: "example_parse ''{oops'' = Inl ''Unexpected token in JSON''"
    by (simp_all add: row_property_def example_row_def example_parse_def)
  have e: "events (snd (createOrUpdateProperty mem_remote example_parse
        (row_property (example_row ''tier'' ''leadinfo'' ''{oops'' ''false'')) (init crm_store))) =
       [Call (lookup_request ''tier'') (Inl not_found),
        Err (PropertyError ''tier'' ''Unexpected token in JSON'')]"
    by (simp add: import_defs)
  have p: "map (\<lambda>p. lookup_request (name p)) (read_properties (import_csv ''export.csv'')) =
       [lookup_request ''score'', lookup_request ''tier'', lookup_request ''stage'']"
    by (simp add: read_properties_def import_csv_def row_property_def example_row_def)
  from malformed_options_fail_one_row
         [where p = "row_property (example_row ''tier'' ''leadinfo'' ''{oops'' ''false'')"
            and x = "''{oops''" and parse = example_parse and m = "''Unexpected token in JSON''"
            and R = "mem_remote :: (mem, nat list) remote" and w = "init crm_store"
            and csv = import_csv and filePath = "''export.csv''" and s = crm_store]
       a b c e p
  show ?thesis by simp
qed

section \<open>Idempotence of the Reconciler\<close>

lemma idempotent_Nil [simp]: "idempotent []"
  by (simp add: idempotent_def)

lemma idempotent_snoc:
  "idempotent (es @ [e]) \<longleftrightarrow>
     idempotent es \<and> (\<forall>n. (\<exists>e'\<in>set es. confirms n e') \<longrightarrow> \<not> recreates n e \<and> \<not> misses n e)"
proof
  assume a: "idempotent (es @ [e])"
  have "idempotent es"
    unfolding idempotent_def
  proof (intro allI impI)
    fix pre x post n
    assume "es = pre @ x # post \<and> (\<exists>e'\<in>set pre. confirms n e')"
    then have "es @ [e] = pre @ x # (post @ [e])" "\<exists>e'\<in>set pre. confirms n e'"
      by simp_all
    with a show "\<not> recreates n x \<and> \<not> misses n x"
      unfolding idempotent_def by blast
  qed
  moreover have "\<forall>n. (\<exists>e'\<in>set es. confirms n e') \<longrightarrow> \<not> recreates n e \<and> \<not> misses n e"
    using a unfolding idempotent_def by blast
  ultimately show "idempotent es \<and> (\<forall>n. (\<exists>e'\<in>set es. confirms n e') \<longrightarrow> \<not> recreates n e \<and> \<not> misses n e)"
    by blast
next
  assume a: "idempotent es \<and> (\<forall>n. (\<exists>e'\<in>set es. confirms n e') \<longrightarrow> \<not> recreates n e \<and> \<not> misses n e)"
  show "idempotent (es @ [e])"
    unfolding idempotent_def
  proof (intro allI impI)
    fix pre x post n
    assume b: "es @ [e] = pre @ x # post \<and> (\<exists>e'\<in>set pre. confirms n e')"
    show "\<not> recreates n x \<and> \<not> misses n x"
    proof (cases post rule: rev_cases)
      case Nil
      with b have "es = pre" "x = e" by simp_all
      with a b show ?thesis by blast
    next
      case (snoc post' y)
      with b have "es = pre @ x # post'" by simp
      with a b show ?thesis unfolding idempotent_def by blast
    qed
  qed
qed

lemma consistent_init [simp]: "consistent R (init s)"
  by (simp add: consistent_def init_def)

lemma consistent_console [simp]:
  "consistent R (console_log m w) = consistent R w"
  "consistent R (console_error m w) = consistent R w"
  by (auto simp: consistent_def idempotent_snoc confirms_def recreates_def misses_def)

lemma isl_tagged [simp]: "isl (case r of Inl e \<Rightarrow> Inl e | Inr a \<Rightarrow> Inr (f a)) = isl r"
  by (cases r) simp_all



lemma url_distinct [simp]:
  "GROUPS_URL \<noteq> named_url n" "BASE_URL \<noteq> GROUPS_URL" "GROUPS_URL \<noteq> BASE_URL"
  by (simp_all add: named_url_def BASE_URL_def GROUPS_URL_def)

lemma neutral_requests [simp]:
  "recreates n (Call groups_request r) = False"
  "misses n (Call groups_request r) = False"
  "confirms n (Call groups_request r) = False"
  "recreates n (Call (create_group_request g) r) = False"
  "misses n (Call (create_group_request g) r) = False"
  "confirms n (Call (create_group_request g) r) = False"
  "recreates n (Call (update_request m d) r) = False"
  "misses n (Call (update_request m d) r) = False"
  "confirms n (Call (update_request m d) r) = False"
  by (auto simp: recreates_def misses_def confirms_def groups_request_def
      create_group_request_def update_request_def lookup_request_def create_request_def)

lemma lookup_event [simp]:
  "recreates n (Call (lookup_request m) r) = False"
  "misses n (Call (lookup_request m) r) = (m = n \<and> \<not> found r)"
  "confirms n (Call (lookup_request m) r) = (m = n \<and> found r)"
  by (cases r; auto simp: recreates_def misses_def confirms_def lookup_request_def
      create_request_def)+

lemma create_event [simp]:
  "recreates n (Call (create_request d) r) = (data_name d = n)"
  "misses n (Call (create_request d) r) = False"
  "confirms n (Call (create_request d) r) = (data_name d = n \<and> \<not> isl r)"
  by (cases r; auto simp: recreates_def misses_def confirms_def lookup_request_def
      create_request_def)+








lemma importProperties_events_init:
  fixes R :: "('s, 'j) remote"
  shows "\<exists>outs. length outs = length (read_properties (csv filePath))
      \<and> events (importProperties R parse csv filePath (init s)) =
          [Out (StartingImport filePath),
           Out (FoundToImport (length (read_properties (csv filePath))))]
          @ import_trace parse (length (read_properties (csv filePath))) 0
              (read_properties (csv filePath)) outs
          @ [Out ImportCompleted]"
  using importProperties_events
          [where csv = csv and filePath = filePath and R = R and parse = parse and w = "init s"]
  by (simp add: init_def)















section \<open>Driver\<close>

lemma progress_group_events [simp]: "filter is_progress (group_events g rg rc) = []"
  by (simp add: group_events_def split: sum.splits response.splits)

lemma progress_property_events [simp]: "filter is_progress (property_events parse p rl rm) = []"
  by (simp add: property_events_def split: sum.splits)

lemma progress_import_trace:
  "length outs = length props \<Longrightarrow>
     length (filter is_progress (import_trace parse k i props outs)) = length props"
  by (induction props outs arbitrary: i rule: list_induct2') (simp_all add: row_events_def)

lemma progress_deletions_trace:
  "length os = length ns \<Longrightarrow>
     length (filter is_progress (deletions_trace cp k i ns os)) = length ns"
  by (induction ns os arbitrary: i rule: list_induct2')
     (simp_all add: deletion_events_def split: sum.splits)

lemma progress_group_loop:
  "length (filter is_progress (events (group_loop R n i gs w)))
     = length (filter is_progress (events w)) + length gs"
proof (induction gs arbitrary: i w)
  case Nil
  then show ?case by simp
next
  case (Cons g gs)
  obtain r where "events (deleteGroup R g (console_log (ProcessingGroupDeletion i n g) w)) =
      events (console_log (ProcessingGroupDeletion i n g) w) @
        [Call (delete_group_request g) r,
         case r of Inl e \<Rightarrow> Err (DeleteGroupError g (message e)) | Inr d \<Rightarrow> Out (DeletedGroup g)]"
    using deleteGroup_events by blast
  then show ?case using Cons.IH
    by (simp add: console_log_def split: sum.splits)
qed

text \<open>
  Each workflow, on a file that is read to its end, prints the progress line of every
  item and ends with its completion line, whatever the remote answers.
\<close>

lemma importProperties_completes:
  fixes R :: "('s, 'j) remote"
  shows "last (events (importProperties R parse csv filePath (init s))) = Out ImportCompleted"
    and "length (filter is_progress (events (importProperties R parse csv filePath (init s))))
           = length (read_properties (csv filePath))"
proof -
  obtain outs where l: "length outs = length (read_properties (csv filePath))"
    and e: "events (importProperties R parse csv filePath (init s)) =
          [Out (StartingImport filePath),
           Out (FoundToImport (length (read_properties (csv filePath))))]
          @ import_trace parse (length (read_properties (csv filePath))) 0
              (read_properties (csv filePath)) outs
          @ [Out ImportCompleted]"
    using importProperties_events_init [of csv filePath R parse s] by blast
  show "last (events (importProperties R parse csv filePath (init s))) = Out ImportCompleted"
    unfolding e by simp
  show "length (filter is_progress (events (importProperties R parse csv filePath (init s))))
           = length (read_properties (csv filePath))"
    unfolding e using progress_import_trace [OF l] by simp
qed

lemma deletePropertiesFromCSV_completes:
  fixes R :: "('s, 'j) remote"
  shows "last (events (deletePropertiesFromCSV R csv filePath (init s)))
           = Out PropertyDeletionCompleted"
    and "length (filter is_progress (events (deletePropertiesFromCSV R csv filePath (init s))))
           = length (read_propertiesToDelete (csv filePath))"
proof -
  let ?r = "fst (list_properties R snapshot_request s)"
  let ?ns = "read_propertiesToDelete (csv filePath)"
  obtain os where l: "length os = length ?ns"
    and e: "events (deletePropertiesFromCSV R csv filePath (init s)) =
         Out (StartingPropertyDeletion filePath)
         # snapshot_events ?r
         @ Out (FoundToDelete (length ?ns))
         # deletions_trace (custom_of ?r) (length ?ns) 1 ?ns os
         @ failure_report (deletions_failed (custom_of ?r) ?ns os)
         @ [Out PropertyDeletionCompleted]"
    using deletePropertiesFromCSV_events [of csv filePath R s] by blast
  show "last (events (deletePropertiesFromCSV R csv filePath (init s)))
           = Out PropertyDeletionCompleted"
    unfolding e by simp
  show "length (filter is_progress (events (deletePropertiesFromCSV R csv filePath (init s))))
           = length ?ns"
    unfolding e
    by (simp add: progress_deletions_trace [OF l] snapshot_events_def failure_report_def
        split: sum.splits)
qed

lemma deleteGroupsFromCSV_completes:
  fixes R :: "('s, 'j) remote"
  shows "last (events (deleteGroupsFromCSV R csv filePath (init s)))
           = Out GroupDeletionCompleted"
    and "length (filter is_progress (events (deleteGroupsFromCSV R csv filePath (init s))))
           = length (read_groups (csv filePath))"
  by (simp_all add: deleteGroupsFromCSV_def Let_def console_log_def init_def progress_group_loop)

lemma requests_getAllCustomProperties:
  "requests (events (snd (getAllCustomProperties R w))) = requests (events w) @ [snapshot_request]"
  by (simp add: getAllCustomProperties_def axios_def console_log_def console_error_def
      snapshot_request_def Let_def split: prod.splits sum.splits)

text \<open>
  Claim C9. On a configuration error (the credential unset, the path missing, a command
  that is none of the three) \<open>main\<close> exits with status 1 and has handed no request to
  axios: the remote is in the state it was in. Otherwise the workflow of the command is
  started. When its file is read to the end the workflow runs to completion whatever the
  outcomes of its requests (it prints the progress line of every item, and its completion
  line last) and the process ends with status 0. The claim says nothing of a file that
  cannot be opened: there the stream's error is an uncaught exception, the workflow never
  completes and the status is 1, after the snapshot request when the command is
  \<^verbatim>\<open>delete-properties\<close> and before any request otherwise.
\<close>

theorem main_exit_status:
  "(config_error API_KEY argv \<longrightarrow>
      exit_code (main R parse fs API_KEY argv s) = 1
      \<and> requests (events (final_world (main R parse fs API_KEY argv s))) = []
      \<and> store (final_world (main R parse fs API_KEY argv s)) = s)
   \<and> (\<not> config_error API_KEY argv \<longrightarrow>
        (\<forall>rows. fs (the (arg (drop 2 argv) 1)) = Some rows \<longrightarrow>
            main R parse fs API_KEY argv s =
              Finished
                (if arg (drop 2 argv) 0 = Some ''import''
                 then importProperties R parse (\<lambda>path. rows) (the (arg (drop 2 argv) 1)) (init s)
                 else if arg (drop 2 argv) 0 = Some ''delete-properties''
                 then deletePropertiesFromCSV R (\<lambda>path. rows) (the (arg (drop 2 argv) 1)) (init s)
                 else deleteGroupsFromCSV R (\<lambda>path. rows) (the (arg (drop 2 argv) 1)) (init s))
          \<and> exit_code (main R parse fs API_KEY argv s) = 0
          \<and> last (events (final_world (main R parse fs API_KEY argv s)))
              = Out (completion (arg (drop 2 argv) 0))
          \<and> length (filter is_progress (events (final_world (main R parse fs API_KEY argv s))))
              = items (arg (drop 2 argv) 0) rows)
      \<and> (fs (the (arg (drop 2 argv) 1)) = None \<longrightarrow>
            main R parse fs API_KEY argv s =
              Uncaught
                (if arg (drop 2 argv) 0 = Some ''import''
                 then console_log (StartingImport (the (arg (drop 2 argv) 1))) (init s)
                 else if arg (drop 2 argv) 0 = Some ''delete-properties''
                 then snd (getAllCustomProperties R
                             (console_log (StartingPropertyDeletion (the (arg (drop 2 argv) 1)))
                                (init s)))
                 else console_log (StartingGroupDeletion (the (arg (drop 2 argv) 1))) (init s))
          \<and> exit_code (main R parse fs API_KEY argv s) = 1
          \<and> requests (events (final_world (main R parse fs API_KEY argv s)))
              = (if arg (drop 2 argv) 0 = Some ''delete-properties'' then [snapshot_request]
                 else [])))"
proof (intro conjI impI allI)
  assume "config_error API_KEY argv"
  then show "exit_code (main R parse fs API_KEY argv s) = 1"
    "requests (events (final_world (main R parse fs API_KEY argv s))) = []"
    "store (final_world (main R parse fs API_KEY argv s)) = s"
    by (auto simp: main_def config_error_def Let_def init_def console_error_def)
next
  fix rows
  assume c: "\<not> config_error API_KEY argv" and f: "fs (the (arg (drop 2 argv) 1)) = Some rows"
  let ?path = "the (arg (drop 2 argv) 1)"
  show m: "main R parse fs API_KEY argv s =
              Finished
                (if arg (drop 2 argv) 0 = Some ''import''
                 then importProperties R parse (\<lambda>path. rows) ?path (init s)
                 else if arg (drop 2 argv) 0 = Some ''delete-properties''
                 then deletePropertiesFromCSV R (\<lambda>path. rows) ?path (init s)
                 else deleteGroupsFromCSV R (\<lambda>path. rows) ?path (init s))"
    using c f
    by (auto simp: main_def config_error_def Let_def importProperties_of_file_def
        deletePropertiesFromCSV_of_file_def deleteGroupsFromCSV_of_file_def)
  show "exit_code (main R parse fs API_KEY argv s) = 0"
    unfolding m by simp
  show "last (events (final_world (main R parse fs API_KEY argv s)))
          = Out (completion (arg (drop 2 argv) 0))"
    unfolding m
    by (simp add: completion_def importProperties_completes deletePropertiesFromCSV_completes
        deleteGroupsFromCSV_completes)
  show "length (filter is_progress (events (final_world (main R parse fs API_KEY argv s))))
          = items (arg (drop 2 argv) 0) rows"
    unfolding m
    by (simp add: items_def importProperties_completes deletePropertiesFromCSV_completes
        deleteGroupsFromCSV_completes)
next
  assume c: "\<not> config_error API_KEY argv" and f: "fs (the (arg (drop 2 argv) 1)) = None"
  let ?path = "the (arg (drop 2 argv) 1)"
  show m: "main R parse fs API_KEY argv s =
              Uncaught
                (if arg (drop 2 argv) 0 = Some ''import''
                 then console_log (StartingImport ?path) (init s)
                 else if arg (drop 2 argv) 0 = Some ''delete-properties''
                 then snd (getAllCustomProperties R
                             (console_log (StartingPropertyDeletion ?path) (init s)))
                 else console_log (StartingGroupDeletion ?path) (init s))"
    using c f
    by (auto simp: main_def config_error_def Let_def importProperties_of_file_def
        deletePropertiesFromCSV_of_file_def deleteGroupsFromCSV_of_file_def)
  show "exit_code (main R parse fs API_KEY argv s) = 1"
    unfolding m by simp
  show "requests (events (final_world (main R parse fs API_KEY argv s)))
          = (if arg (drop 2 argv) 0 = Some ''delete-properties'' then [snapshot_request] else [])"
    unfolding m
    by (simp add: requests_getAllCustomProperties console_log_def init_def)
qed

theorem main_exit_status_witness:
  "config_error None [''node'', ''index.ts'', ''import'', ''export.csv'']
   \<and> exit_code (main mem_remote example_parse example_fs None
            [''node'', ''index.ts'', ''import'', ''export.csv''] billing_store) = 1
   \<and> requests (events (final_world (main mem_remote example_parse example_fs None
            [''node'', ''index.ts'', ''import'', ''export.csv''] billing_store))) = []
   \<and> \<not> config_error (Some ''token'') [''node'', ''index.ts'', ''delete-groups'', ''export.csv'']
   \<and> example_fs ''export.csv'' = Some (groups_csv ''export.csv'')
   \<and> exit_code (main mem_remote example_parse example_fs (Some ''token'')
            [''node'', ''index.ts'', ''delete-groups'', ''export.csv''] billing_store) = 0
   \<and> Err (DeleteGroupError ''leadinfo'' (message not_found))
       \<in> set (events (final_world (main mem_remote example_parse example_fs (Some ''token'')
                  [''node'', ''index.ts'', ''delete-groups'', ''export.csv''] billing_store)))
   \<and> last (events (final_world (main mem_remote example_parse example_fs (Some ''token'')
                  [''node'', ''index.ts'', ''delete-groups'', ''export.csv''] billing_store)))
       = Out GroupDeletionCompleted
   \<and> \<not> config_error (Some ''token'') [''node'', ''index.ts'', ''delete-properties'', ''gone.csv'']
   \<and> example_fs ''gone.csv'' = None
   \<and> exit_code (main mem_remote example_parse example_fs (Some ''token'')
            [''node'', ''index.ts'', ''delete-properties'', ''gone.csv''] billing_store) = 1
   \<and> requests (events (final_world (main mem_remote example_parse example_fs (Some ''token'')
            [''node'', ''index.ts'', ''delete-properties'', ''gone.csv''] billing_store)))
       = [snapshot_request]"
proof -
  let ?groups = "[''node'', ''index.ts'', ''delete-groups'', ''export.csv'']"
  let ?gone = "[''node'', ''index.ts'', ''delete-properties'', ''gone.csv'']"
  have a: "config_error None [''node'', ''index.ts'', ''import'', ''export.csv'']"
    and b: "\<not> config_error (Some ''token'') ?groups"
    and b': "\<not> config_error (Some ''token'') ?gone"
    by (simp_all add: config_error_def falsy_def arg_def)
  have f: "example_fs ''export.csv'' = Some (groups_csv ''export.csv'')"
    and f': "example_fs ''gone.csv'' = None"
    and p: "example_fs (the (arg (drop 2 ?groups) 1)) = Some (groups_csv ''export.csv'')"
    and p': "example_fs (the (arg (drop 2 ?gone) 1)) = None"
    by (simp_all add: example_fs_def arg_def)
  have c: "Err (DeleteGroupError ''leadinfo'' (message not_found))
       \<in> set (events (deleteGroupsFromCSV (mem_remote :: (mem, nat list) remote)
                  (\<lambda>path. groups_csv ''export.csv'') ''export.csv'' (init billing_store)))"
    by (simp add: run_defs groups_csv_def billing_store_def)
  note t1 = main_exit_status
         [where R = "mem_remote :: (mem, nat list) remote" and parse = example_parse
            and fs = example_fs and API_KEY = None
            and argv = "[''node'', ''index.ts'', ''import'', ''export.csv'']"
            and s = billing_store, THEN conjunct1, THEN mp, OF a]
  note t2 = main_exit_status
         [where R = "mem_remote :: (mem, nat list) remote" and parse = example_parse
            and fs = example_fs and API_KEY = "Some ''token''" and argv = ?groups
            and s = billing_store, THEN conjunct2, THEN mp, OF b, THEN conjunct1,
          THEN spec, THEN mp, OF p]
  note t3 = main_exit_status
         [where R = "mem_remote :: (mem, nat list) remote" and parse = example_parse
            and fs = example_fs and API_KEY = "Some ''token''" and argv = ?gone
            and s = billing_store, THEN conjunct2, THEN mp, OF b', THEN conjunct2,
          THEN mp, OF p']
  have w: "final_world (main (mem_remote :: (mem, nat list) remote) example_parse example_fs
                          (Some ''token'') ?groups billing_store)
             = deleteGroupsFromCSV mem_remote (\<lambda>path. groups_csv ''export.csv'') ''export.csv''
                 (init billing_store)"
    using t2 [THEN conjunct1] by (simp add: arg_def)
  have e: "Err (DeleteGroupError ''leadinfo'' (message not_found))
       \<in> set (events (final_world (main mem_remote example_parse example_fs (Some ''token'')
                  ?groups billing_store)))"
    unfolding w by (rule c)
  have l: "last (events (final_world (main mem_remote example_parse example_fs (Some ''token'')
                  ?groups billing_store))) = Out GroupDeletionCompleted"
    using t2 [THEN conjunct2, THEN conjunct2, THEN conjunct1]
    by (simp add: completion_def arg_def)
  have r: "requests (events (final_world (main mem_remote example_parse example_fs
              (Some ''token'') ?gone billing_store))) = [snapshot_request]"
    using t3 [THEN conjunct2, THEN conjunct2] by (simp add: arg_def)
  show ?thesis
    using a b b' f f' e l r t1 [THEN conjunct1] t1 [THEN conjunct2, THEN conjunct1]
      t2 [THEN conjunct2, THEN conjunct1] t3 [THEN conjunct2, THEN conjunct1]
    by simp
qed

end
